theory Spec2Isabelle
  imports Complex_Main "HOL-Library.Log_Nat"
begin

section \<open>The threaded render scheduler of \<^verbatim>\<open>rprblender/render/scene.py\<close>\<close>

text \<open>
  The development embeds the classes \<^verbatim>\<open>UpdateBlock\<close>, \<^verbatim>\<open>UpdateData\<close>,
  \<^verbatim>\<open>SceneRenderer\<close>, \<^verbatim>\<open>RenderThread\<close> and \<^verbatim>\<open>SceneRendererThreaded\<close>.
  Mutation is explicit state passing, a Python exception is a value of \<open>py_error\<close>, and
  Python's \<^verbatim>\<open>None\<close> is the \<open>None\<close> of an option type.
\<close>

subsection \<open>Exceptions\<close>

datatype py_error =
    AttributeError      \<comment> \<open>an attribute or method looked up on \<^verbatim>\<open>None\<close>\<close>
  | TypeError           \<comment> \<open>\<^verbatim>\<open>None\<close> subscripted\<close>
  | ZeroDivisionError
  | OverflowError       \<comment> \<open>a quotient of integers too large for a float\<close>
  | CoreError           \<comment> \<open>raised inside \<^verbatim>\<open>core_operations(raise_error=True)\<close>\<close>
  | StopIteration       \<comment> \<open>an exhausted generator\<close>

text \<open>
  A call either returns a result in a state, or raises in the state reached so far (the
  assignments made before the exception stay made).
\<close>

datatype ('a, 's) outcome = Done 'a 's | Raised py_error 's

text \<open>The state in which a call ended, either way.\<close>

fun state_of :: "('a, 's) outcome \<Rightarrow> 's" where
  "state_of (Done r s) = s"
| "state_of (Raised e s) = s"

subsection \<open>UpdateBlock\<close>

text \<open>
  \<^verbatim>\<open>class UpdateBlock\<close>: the fields \<^verbatim>\<open>value\<close>, \<^verbatim>\<open>has_value\<close> and \<^verbatim>\<open>equal\<close>.
\<close>

record 'a UpdateBlock =
  value_ub :: 'a
  has_value :: bool
  equal_ub :: "'a \<Rightarrow> 'a \<Rightarrow> bool"

definition UpdateBlock_init :: "'a \<Rightarrow> bool \<Rightarrow> ('a \<Rightarrow> 'a \<Rightarrow> bool) \<Rightarrow> 'a UpdateBlock" where
  "UpdateBlock_init v h e = \<lparr>value_ub = v, has_value = h, equal_ub = e\<rparr>"

text \<open>The defaults of \<^verbatim>\<open>__init__(self, value=None, has_value=True, equal=operator.eq)\<close>.\<close>

definition default_value :: "'a option" where
  "default_value = None"

definition default_has_value :: bool where
  "default_has_value = True"

definition set_value :: "'a UpdateBlock \<Rightarrow> 'a \<Rightarrow> 'a UpdateBlock" where
  "set_value block v = block\<lparr>has_value := True, value_ub := v\<rparr>"

definition pop_value :: "'a UpdateBlock \<Rightarrow> 'a \<times> 'a UpdateBlock" where
  "pop_value block = (value_ub block, block\<lparr>has_value := False\<rparr>)"

definition del_value :: "'a UpdateBlock \<Rightarrow> 'a UpdateBlock" where
  "del_value block = block\<lparr>has_value := False\<rparr>"

subsection \<open>UpdateData.update_block\<close>

definition update_block :: "'a UpdateBlock \<Rightarrow> 'a \<Rightarrow> 'a \<Rightarrow> 'a UpdateBlock" where
  "update_block block block_value_current block_value_new =
     (if has_value block \<and> equal_ub block (value_ub block) block_value_new then block
      else if equal_ub block block_value_current block_value_new then
        (if has_value block then del_value block else block)
      else set_value block block_value_new)"

text \<open>
  A run of \<^verbatim>\<open>update_block\<close> calls on one block, each with the applied value of its
  moment and its new value, and no \<^verbatim>\<open>pop_value\<close> in between.
\<close>

fun update_blocks :: "'a UpdateBlock \<Rightarrow> ('a \<times> 'a) list \<Rightarrow> 'a UpdateBlock" where
  "update_blocks block [] = block"
| "update_blocks block ((cur, new) # calls) = update_blocks (update_block block cur new) calls"

subsection \<open>Values handed through the scheduler\<close>

text \<open>
  A resolution is a pair \<^verbatim>\<open>(width, height)\<close>, a region a pair of rows
  \<^verbatim>\<open>((x1, x2), (y1, y2))\<close> of fractions of the frame. AOV settings, cameras, frame
  buffers, images and render target sets are objects of the host and of the render
  device; only their identity is used here, so each is a number.
\<close>

type_synonym resolution = "int \<times> int"
type_synonym region = "(rat \<times> rat) \<times> (rat \<times> rat)"
type_synonym aov_settings = nat
type_synonym camera = nat
type_synonym image = nat
type_synonym tile = "nat \<times> nat \<times> nat \<times> nat"

text \<open>
  \<^verbatim>\<open>np.array_equal\<close> on values that are \<^verbatim>\<open>None\<close> or tuples of numbers: two
  \<^verbatim>\<open>None\<close> are equal, \<^verbatim>\<open>None\<close> and a tuple differ in shape, two tuples are compared
  by elements.
\<close>

definition array_equal :: "'a option \<Rightarrow> 'a option \<Rightarrow> bool" where
  "array_equal a1 a2 = (a1 = a2)"

subsection \<open>UpdateData\<close>

record UpdateData =
  ud_render_region :: "region option UpdateBlock"
  ud_render_resolution :: "resolution option UpdateBlock"
  ud_aov :: "aov_settings option UpdateBlock"
  ud_render_camera :: "camera option UpdateBlock"

text \<open>
  \<^verbatim>\<open>UpdateData.__init__\<close>. The region block is built without \<^verbatim>\<open>has_value\<close>, so it
  takes the default of the constructor; the other three pass \<^verbatim>\<open>has_value=False\<close> and
  take the default value. The method \<^verbatim>\<open>is_same\<close> of the host's camera objects is a
  parameter.
\<close>

definition UpdateData_init :: "(camera \<Rightarrow> camera option \<Rightarrow> bool) \<Rightarrow> UpdateData" where
  "UpdateData_init is_same =
     \<lparr>ud_render_region = UpdateBlock_init None default_has_value array_equal,
      ud_render_resolution = UpdateBlock_init default_value False array_equal,
      ud_aov = UpdateBlock_init default_value False (\<lambda>old new. old \<noteq> None \<and> old = new),
      ud_render_camera = UpdateBlock_init default_value False
        (\<lambda>old new. case old of None \<Rightarrow> False | Some c \<Rightarrow> is_same c new)\<rparr>"

subsection \<open>What happens outside the Python state\<close>

text \<open>
  Calls on the render device, the render layers and the scene-sync object, and the
  messages of \<^verbatim>\<open>logging.debug\<close> in \<^verbatim>\<open>check_updates\<close>, are recorded in the order in
  which the code makes them.
\<close>

datatype event =
    LogDebug string
  | DetachRenderTarget nat
  | NewRenderTargets nat "resolution option"
  | NewRenderLayers "aov_settings option" nat
  | AttachRenderTarget nat
  | RenderLayersUpdate "aov_settings option"
  | SceneSyncedSetRenderCamera "camera option"
  | SetAASamples int
  | ClearRenderTargets nat
  | ContextRender
  | ContextRenderTile tile
  | GetFrameBuffer string
  | GetResolvedImage nat
  | PrepareImageByLayer string image

text \<open>
  Modelled from the spec: \<^verbatim>\<open>rprblender/render/device.py\<close> is not among the sources. The
  render device keeps the render target sets attached to it: attaching adds one, detaching
  removes it. The sets attached after a run of events, from those attached before:
\<close>

fun attached_after :: "nat list \<Rightarrow> event list \<Rightarrow> nat list" where
  "attached_after att [] = att"
| "attached_after att (AttachRenderTarget t # es) = attached_after (att @ [t]) es"
| "attached_after att (DetachRenderTarget t # es) = attached_after (removeAll t att) es"
| "attached_after att (_ # es) = attached_after att es"

subsection \<open>Settings and environment\<close>

record RenderingLimits =
  enable :: bool
  limit_type :: string
  iterations :: int
  time :: rat

record RenderSettings =
  rendering_limits :: RenderingLimits

text \<open>
  \<^verbatim>\<open>helpers.get_user_settings()\<close>, with \<^verbatim>\<open>used_gpu_count\<close> for
  \<^verbatim>\<open>helpers.get_used_gpu_count(settings.gpu_states)\<close>.
\<close>

record UserSettings =
  samples :: int
  device_type :: string
  device_type_plus_cpu :: bool
  used_gpu_count :: int

text \<open>
  The environment of a renderer, none of it under the sources: the successive readings of
  \<^verbatim>\<open>time.perf_counter()\<close>; whether the n-th block run under
  \<^verbatim>\<open>core_operations(raise_error=True)\<close> completes; the user settings; the numpy
  expression turning a region and a resolution into the four tile bounds; and the three calls
  of \<^verbatim>\<open>get_image\<close> on the render targets and render layers, whose answers may depend on
  how many blocks ran before.
\<close>

record Env =
  perf_counter :: "nat \<Rightarrow> rat"
  core_ok :: "nat \<Rightarrow> bool"
  user_settings :: UserSettings
  tile_of :: "region \<Rightarrow> resolution \<Rightarrow> tile"
  get_frame_buffer :: "nat \<Rightarrow> string \<Rightarrow> nat option"
  get_resolved_image :: "nat \<Rightarrow> nat \<Rightarrow> image option"
  prepare_image_by_layer :: "nat \<Rightarrow> string \<Rightarrow> image \<Rightarrow> image"

subsection \<open>SceneRenderer\<close>

text \<open>
  The attributes of \<^verbatim>\<open>SceneRenderer\<close>, then four counters of the run: the events so far,
  the number of clock readings taken, of \<^verbatim>\<open>core_operations\<close> blocks entered, and of
  render target sets built.
\<close>

record SceneRenderer =
  im :: "image option"
  im_tile :: "(rat \<times> rat) option"
  im_iteration :: "nat option"
  im_prepared :: "string \<rightharpoonup> image"
  iteration_in_progress :: "nat option"
  cache_generated :: bool
  time_in_progress :: "rat option"
  resolution :: "resolution option"
  region :: "region option"
  time_render_start :: "rat option"
  render_settings :: RenderSettings
  production_render :: bool
  aov_settings :: "aov_settings option"
  tile_image :: "(rat \<times> rat) option"
  is_production :: bool
  used_iterations :: int
  iteration_divider :: rat
  render_targets :: "nat option"
  render_layers :: "(aov_settings option \<times> nat) option"
  trace :: "event list"
  perf_reads :: nat
  core_entered :: nat
  targets_built :: nat

definition SceneRenderer_init :: "RenderSettings \<Rightarrow> bool \<Rightarrow> SceneRenderer" where
  "SceneRenderer_init rs is_prod =
     \<lparr>im = None, im_tile = None, im_iteration = None, im_prepared = Map.empty,
      iteration_in_progress = None, cache_generated = False, time_in_progress = None,
      resolution = None, region = None, time_render_start = None,
      render_settings = rs, production_render = False, aov_settings = None,
      tile_image = None, is_production = is_prod, used_iterations = 1,
      iteration_divider = 1, render_targets = None, render_layers = None,
      trace = [], perf_reads = 0, core_entered = 0, targets_built = 0\<rparr>"

definition emit :: "event list \<Rightarrow> SceneRenderer \<Rightarrow> SceneRenderer" where
  "emit es sr = sr\<lparr>trace := trace sr @ es\<rparr>"

text \<open>
  \<^verbatim>\<open>SceneRenderer.update_render_resolution\<close>, statement by statement. The constructors
  \<^verbatim>\<open>RenderTargets\<close> and \<^verbatim>\<open>RenderLayers\<close> and the two device calls are taken to return.
\<close>

definition detach_previous :: "SceneRenderer \<Rightarrow> SceneRenderer" where
  "detach_previous sr =
     (case render_targets sr of
        None \<Rightarrow> sr
      | Some t \<Rightarrow> (emit [DetachRenderTarget t] sr)\<lparr>render_targets := None\<rparr>)"

definition update_render_resolution :: "SceneRenderer \<Rightarrow> resolution option \<Rightarrow> SceneRenderer" where
  "update_render_resolution sr render_resolution =
     (let sr1 = detach_previous (sr\<lparr>render_layers := None\<rparr>);
          sr2 = sr1\<lparr>resolution := render_resolution\<rparr>;
          t = targets_built sr2;
          sr3 = (emit [NewRenderTargets t (resolution sr2)] sr2)
                  \<lparr>render_targets := Some t, targets_built := Suc t\<rparr>;
          sr4 = (emit [NewRenderLayers (aov_settings sr3) t] sr3)
                  \<lparr>render_layers := Some (aov_settings sr3, t)\<rparr>
      in emit [AttachRenderTarget t] sr4)"

definition update_render_region :: "SceneRenderer \<Rightarrow> region option \<Rightarrow> SceneRenderer" where
  "update_render_region sr render_region = sr\<lparr>region := render_region\<rparr>"

definition update_aov :: "SceneRenderer \<Rightarrow> aov_settings option \<Rightarrow> SceneRenderer" where
  "update_aov sr aov = sr\<lparr>aov_settings := aov\<rparr>"

subsection \<open>SceneRenderer.render_proc\<close>

text \<open>
  Python's \<^verbatim>\<open>a / b\<close> on integers is a float: the double nearest to the exact quotient,
  ties going to the even mantissa. A double is kept here as the rational number it stands
  for. For positive \<open>a\<close> and \<open>b\<close>, \<open>float_exponent a b\<close> is the \<open>e\<close> with
  \<open>2 ^ e \<le> a / b < 2 ^ (e + 1)\<close>; a double has 53 bits of mantissa, so its last place
  is worth \<open>2 ^ (e - 52)\<close>, and no less than \<open>2 ^ (- 1074)\<close> (subnormal numbers). The
  division raises on a zero divisor and when the result is beyond the largest double.
\<close>

definition float_exponent :: "int \<Rightarrow> int \<Rightarrow> int" where
  "float_exponent a b =
     (let k = bitlen a - bitlen b
      in if (2::rat) powi k * of_int b \<le> of_int a then k else k - 1)"

definition round_half_even :: "rat \<Rightarrow> int" where
  "round_half_even x =
     (let f = \<lfloor>x\<rfloor>; r = x - of_int f
      in if r < 1 / 2 then f
         else if 1 / 2 < r then f + 1
         else if even f then f else f + 1)"

definition nearest_double :: "int \<Rightarrow> int \<Rightarrow> rat" where
  "nearest_double a b =
     (if a = 0 then 0
      else
        let e = max (float_exponent \<bar>a\<bar> \<bar>b\<bar>) (- 1022);
            ulp = (2::rat) powi (e - 52)
        in of_int (sgn a * sgn b)
             * (of_int (round_half_even (of_int \<bar>a\<bar> / of_int \<bar>b\<bar> / ulp)) * ulp))"

definition py_truediv :: "int \<Rightarrow> int \<Rightarrow> py_error + rat" where
  "py_truediv a b =
     (if b = 0 then Inl ZeroDivisionError
      else let x = nearest_double a b
           in if (2::rat) powi 1024 \<le> \<bar>x\<bar> then Inl OverflowError else Inr x)"

text \<open>\<^verbatim>\<open>int(x)\<close> on a float cuts towards zero.\<close>

definition py_int :: "rat \<Rightarrow> int" where
  "py_int x = (if 0 \<le> x then \<lfloor>x\<rfloor> else \<lceil>x\<rceil>)"

text \<open>
  The head of \<^verbatim>\<open>_render_proc\<close>, up to the last assignment of \<^verbatim>\<open>samples\<close>: it returns
  the sample count and sets \<^verbatim>\<open>used_iterations\<close> and \<^verbatim>\<open>iteration_divider\<close>, one
  statement and one division after the other.
\<close>

definition effective_samples :: "Env \<Rightarrow> SceneRenderer \<Rightarrow> (int, SceneRenderer) outcome" where
  "effective_samples env sr =
     (let settings = user_settings env;
          numGPUs = used_gpu_count settings;
          user_set_samples = samples settings;
          limits = rendering_limits (render_settings sr)
      in if enable limits then
           if ''ITER'' = limit_type limits then
             let samples_used =
                   (if is_production sr \<and> device_type settings = ''gpu''
                       \<and> device_type_plus_cpu settings then 100
                    else if numGPUs > user_set_samples \<and> is_production sr then numGPUs
                    else user_set_samples)
             in case py_truediv (iterations limits * user_set_samples) samples_used of
                  Inl e \<Rightarrow> Raised e sr
                | Inr q \<Rightarrow>
                    let sr1 = sr\<lparr>used_iterations := py_int q\<rparr>
                    in case py_truediv user_set_samples samples_used of
                         Inl e \<Rightarrow> Raised e sr1
                       | Inr d \<Rightarrow>
                           let sr2 = sr1\<lparr>iteration_divider := d\<rparr>
                           in Done samples_used
                                (if used_iterations sr2 < 1
                                 then sr2\<lparr>used_iterations := 1, iteration_divider := 1\<rparr>
                                 else sr2)
           else Done user_set_samples sr
         else Done user_set_samples sr)"

text \<open>A reading of \<^verbatim>\<open>time.perf_counter()\<close>, and the entry into a \<^verbatim>\<open>core_operations\<close> block.\<close>

definition perf :: "Env \<Rightarrow> SceneRenderer \<Rightarrow> rat \<times> SceneRenderer" where
  "perf env sr = (perf_counter env (perf_reads sr), sr\<lparr>perf_reads := Suc (perf_reads sr)\<rparr>)"

definition enter_core :: "Env \<Rightarrow> SceneRenderer \<Rightarrow> bool \<times> SceneRenderer" where
  "enter_core env sr = (core_ok env (core_entered sr), sr\<lparr>core_entered := Suc (core_entered sr)\<rparr>)"

text \<open>
  The generator object: where it is suspended, and the local variables that live across
  the \<^verbatim>\<open>yield\<close>.
\<close>

datatype gen_pc = NotStarted | AtYield nat | Finished

record RenderProc =
  pc :: gen_pc
  time_start :: rat
  time_local_total :: rat
  timestamp_operation_last :: rat
  render_region_local :: "tile option"

definition render_proc :: RenderProc where
  "render_proc = \<lparr>pc = NotStarted, time_start = 0, time_local_total = 0,
                   timestamp_operation_last = 0, render_region_local = None\<rparr>"

text \<open>
  From the first statement to the loop: sample count, start time, the tile of the region
  (subscripting the resolution raises when there is a region and no resolution), the block
  that applies the settings, the block that clears the render targets.
\<close>

definition render_proc_begin :: "Env \<Rightarrow> SceneRenderer \<Rightarrow> (RenderProc, SceneRenderer) outcome" where
  "render_proc_begin env sr =
     (case effective_samples env sr of
        Raised e sr1 \<Rightarrow> Raised e sr1
      | Done samples_used sr1 \<Rightarrow>
          let (t0, sr2) = perf env sr1;
              sr3 = sr2\<lparr>time_render_start := Some t0, iteration_in_progress := None\<rparr>
          in case (case region sr3 of
                     None \<Rightarrow> Some None
                   | Some rg \<Rightarrow> (case resolution sr3 of
                                  None \<Rightarrow> None
                                | Some rr \<Rightarrow> Some (Some (tile_of env rg rr)))) of
               None \<Rightarrow> Raised TypeError sr3
             | Some render_region \<Rightarrow>
                 let (t_last, sr4) = perf env sr3;
                     (ok, sr5) = enter_core env sr4
                 in if \<not> ok then Raised CoreError sr5
                    else
                      let sr6 = emit [SetAASamples samples_used] sr5;
                          (t_op, sr7) = perf env sr6;
                          (ok', sr8) = enter_core env sr7
                      in case render_targets sr8 of
                           None \<Rightarrow> Raised AttributeError sr8
                         | Some t \<Rightarrow>
                             if \<not> ok' then Raised CoreError sr8
                             else Done \<lparr>pc = NotStarted, time_start = t0,
                                        time_local_total = 0 + (t_op - t_last),
                                        timestamp_operation_last = t_op,
                                        render_region_local = render_region\<rparr>
                                       (emit [ClearRenderTargets t] sr8))"

text \<open>
  After the loop: the time report divides by the elapsed time, and then the generator
  returns, which \<^verbatim>\<open>next\<close> reports as \<^verbatim>\<open>StopIteration\<close>.
\<close>

definition render_proc_end ::
  "Env \<Rightarrow> SceneRenderer \<Rightarrow> RenderProc \<Rightarrow> (bool, SceneRenderer \<times> RenderProc) outcome" where
  "render_proc_end env sr g =
     (let (now, sr1) = perf env sr;
          time_delta = now - time_start g
      in if time_delta = 0 then Raised ZeroDivisionError (sr1, g\<lparr>pc := Finished\<rparr>)
         else Raised StopIteration (sr1, g\<lparr>pc := Finished\<rparr>))"

text \<open>
  The test at the top of the loop for iteration \<open>i\<close>: does it \<^verbatim>\<open>break\<close>? The local
  \<^verbatim>\<open>rs\<close> is \<^verbatim>\<open>self.render_settings\<close>, which nothing reassigns, so the limits are
  read from the renderer.
\<close>

definition limit_reached :: "Env \<Rightarrow> nat \<Rightarrow> SceneRenderer \<Rightarrow> RenderProc \<Rightarrow> bool \<times> SceneRenderer" where
  "limit_reached env i sr g =
     (let limits = rendering_limits (render_settings sr)
      in if enable limits then
           if ''TIME'' = limit_type limits then
             if time limits \<noteq> 0 then
               let (now, sr1) = perf env sr in (time limits \<le> now - time_start g, sr1)
             else (False, sr)
           else if ''ITER'' = limit_type limits then
             (used_iterations sr \<noteq> 0 \<and> used_iterations sr \<le> int i, sr)
           else (False, sr)
         else (False, sr))"

text \<open>One pass of the loop, from its top to the \<^verbatim>\<open>yield\<close> or out of the loop.\<close>

definition render_proc_iteration ::
  "Env \<Rightarrow> nat \<Rightarrow> SceneRenderer \<Rightarrow> RenderProc \<Rightarrow> (bool, SceneRenderer \<times> RenderProc) outcome" where
  "render_proc_iteration env i sr g =
     (let (stop, sr1) = limit_reached env i sr g
      in if stop then render_proc_end env sr1 g
         else
           let (now, sr2) = perf env (sr1\<lparr>iteration_in_progress := Some i\<rparr>);
               sr3 = sr2\<lparr>time_in_progress := Some (now - time_start g)\<rparr>;
               (t_last, sr4) = perf env sr3;
               (ok, sr5) = enter_core env sr4
           in if \<not> ok
              then Raised CoreError (sr5, g\<lparr>pc := Finished, timestamp_operation_last := t_last\<rparr>)
              else
                let sr6 = emit [case render_region_local g of
                                  None \<Rightarrow> ContextRender
                                | Some bounds \<Rightarrow> ContextRenderTile bounds] sr5;
                    sr7 = sr6\<lparr>cache_generated := True, im_tile := tile_image sr6,
                              im_iteration := Some i, im_prepared := Map.empty\<rparr>;
                    (t_op, sr8) = perf env sr7
                in Done False
                     (sr8, g\<lparr>time_local_total := time_local_total g + (t_op - t_last),
                             timestamp_operation_last := t_op, pc := AtYield i\<rparr>))"

text \<open>\<^verbatim>\<open>next(render_iter)\<close>.\<close>

definition gen_next ::
  "Env \<Rightarrow> SceneRenderer \<Rightarrow> RenderProc \<Rightarrow> (bool, SceneRenderer \<times> RenderProc) outcome" where
  "gen_next env sr g =
     (case pc g of
        NotStarted \<Rightarrow>
          (case render_proc_begin env sr of
             Raised e sr1 \<Rightarrow> Raised e (sr1, g\<lparr>pc := Finished\<rparr>)
           | Done g0 sr1 \<Rightarrow> render_proc_iteration env 0 sr1 g0)
      | AtYield i \<Rightarrow> render_proc_iteration env (Suc i) sr g
      | Finished \<Rightarrow> Raised StopIteration (sr, g))"

text \<open>
  A caller that keeps calling \<^verbatim>\<open>next\<close>, at most \<open>n\<close> times, until it raises: what each
  call gave, in order.
\<close>

fun drive :: "nat \<Rightarrow> Env \<Rightarrow> SceneRenderer \<Rightarrow> RenderProc \<Rightarrow> (py_error + bool) list" where
  "drive 0 env sr g = []"
| "drive (Suc n) env sr g =
     (case gen_next env sr g of
        Raised e s \<Rightarrow> [Inl e]
      | Done b (sr1, g1) \<Rightarrow> Inr b # drive n env sr1 g1)"

subsection \<open>SceneRenderer.get_image\<close>

text \<open>
  The frame buffer of the channel, the resolved image and the prepared image come from the
  render targets and the render layers, which are not among the sources: the environment
  answers for them. The post-effect chain is set up inside the \<^verbatim>\<open>core_operations\<close>
  block and leaves the Python state alone; whatever fails inside a block counts as the
  block failing.
\<close>

definition get_image :: "Env \<Rightarrow> SceneRenderer \<Rightarrow> string \<Rightarrow> (image option, SceneRenderer) outcome" where
  "get_image env sr aov_name =
     (case im_prepared sr aov_name of
        Some img \<Rightarrow> Done (Some img) sr
      | None \<Rightarrow>
          let n = core_entered sr;
              (ok, sr1) = enter_core env sr
          in case render_targets sr1 of
               None \<Rightarrow> Raised AttributeError sr1
             | Some t \<Rightarrow>
                 if \<not> ok then Raised CoreError sr1
                 else
                   let sr2 = emit [GetFrameBuffer aov_name] sr1
                   in case get_frame_buffer env n aov_name of
                        None \<Rightarrow> Done None sr2
                      | Some frame_buffer \<Rightarrow>
                          let sr3 = emit [GetResolvedImage frame_buffer] sr2
                          in case get_resolved_image env n frame_buffer of
                               None \<Rightarrow> Done (im_prepared sr3 aov_name) sr3
                             | Some resolved \<Rightarrow>
                                 (case render_layers sr3 of
                                    None \<Rightarrow> Raised AttributeError sr3
                                  | Some layers \<Rightarrow>
                                      let sr4 = (emit [PrepareImageByLayer aov_name resolved] sr3)
                                            \<lparr>im_prepared := (im_prepared sr3)
                                               (aov_name \<mapsto> prepare_image_by_layer env n aov_name resolved)\<rparr>
                                      in Done (im_prepared sr4 aov_name) sr4))"

subsection \<open>RenderThread and SceneRendererThreaded\<close>

text \<open>
  A \<^verbatim>\<open>RenderThread\<close> is its \<^verbatim>\<open>terminate_event\<close> and what
  \<^verbatim>\<open>threading.Thread.is_alive()\<close> answers. The scene-sync object is the host's: it reports
  a zoom factor, which may change with the camera it is given.
\<close>

record RenderThread =
  terminate_event :: bool
  alive :: bool

record SceneSynced =
  camera_zoom :: "rat option"
  zoom_for :: "camera option \<Rightarrow> rat option"

text \<open>
  The attributes of \<^verbatim>\<open>SceneRendererThreaded\<close>; \<open>need_scene_redraw\<close> is the attribute
  \<^verbatim>\<open>_need_scene_redraw\<close>. The three locks serialise the calls; a call is modelled as
  running alone, so they do not appear.
\<close>

record SceneRendererThreaded =
  scene_renderer :: SceneRenderer
  need_scene_redraw :: bool
  thread :: "RenderThread option"
  render_completed_event :: bool
  update_data :: UpdateData
  render_resolution :: "resolution option"
  aov :: "aov_settings option"
  render_region :: "region option"
  render_camera :: "camera option"
  scene_synced :: "SceneSynced option"
  stop_requested :: bool
  sleep_delay :: "rat option"

definition SceneRendererThreaded_init ::
  "(camera \<Rightarrow> camera option \<Rightarrow> bool) \<Rightarrow> SceneRenderer \<Rightarrow> SceneRendererThreaded" where
  "SceneRendererThreaded_init is_same sr =
     \<lparr>scene_renderer = sr, need_scene_redraw = False, thread = None,
      render_completed_event = False, update_data = UpdateData_init is_same,
      render_resolution = None, aov = None, render_region = None, render_camera = None,
      scene_synced = None, stop_requested = False, sleep_delay = None\<rparr>"

text \<open>The setter of the property \<^verbatim>\<open>need_scene_redraw\<close>.\<close>

definition set_need_scene_redraw :: "SceneRendererThreaded \<Rightarrow> bool \<Rightarrow> SceneRendererThreaded" where
  "set_need_scene_redraw c v = c\<lparr>render_completed_event := False, need_scene_redraw := v\<rparr>"

definition log_debug :: "string \<Rightarrow> SceneRendererThreaded \<Rightarrow> SceneRendererThreaded" where
  "log_debug msg c = c\<lparr>scene_renderer := emit [LogDebug msg] (scene_renderer c)\<rparr>"

definition set_render_camera :: "SceneRendererThreaded \<Rightarrow> camera option \<Rightarrow> (unit, SceneRendererThreaded) outcome" where
  "set_render_camera c cam =
     (let c1 = c\<lparr>render_camera := cam\<rparr>
      in case scene_synced c1 of
           None \<Rightarrow> Raised AttributeError c1
         | Some ss \<Rightarrow>
             let ss' = ss\<lparr>camera_zoom := zoom_for ss cam\<rparr>;
                 c2 = c1\<lparr>scene_synced := Some ss',
                        scene_renderer := emit [SceneSyncedSetRenderCamera cam] (scene_renderer c1)\<rparr>
             in Done () (c2\<lparr>scene_renderer := (scene_renderer c2)
                  \<lparr>tile_image := (case camera_zoom ss' of
                                     Some z \<Rightarrow> Some (z, z)
                                   | None \<Rightarrow> Some (1, 1))\<rparr>\<rparr>))"

text \<open>\<^verbatim>\<open>check_updates\<close>: the \<^verbatim>\<open>if\<close>/\<^verbatim>\<open>elif\<close> on resolution and AOV.\<close>

definition pop_aov :: "SceneRendererThreaded \<Rightarrow> SceneRendererThreaded" where
  "pop_aov c =
     (let c1 = log_debug ''aov changed to '' c;
          (v, block) = pop_value (ud_aov (update_data c1));
          c2 = c1\<lparr>update_data := (update_data c1)\<lparr>ud_aov := block\<rparr>, aov := v\<rparr>
      in c2\<lparr>scene_renderer := (scene_renderer c2)\<lparr>aov_settings := aov c2\<rparr>\<rparr>)"

definition check_resolution_aov :: "SceneRendererThreaded \<Rightarrow> (unit, SceneRendererThreaded) outcome" where
  "check_resolution_aov c =
     (if has_value (ud_render_resolution (update_data c)) then
        let c1 = log_debug ''resolution changed to '' c;
            (v, block) = pop_value (ud_render_resolution (update_data c1));
            c2 = c1\<lparr>update_data := (update_data c1)\<lparr>ud_render_resolution := block\<rparr>,
                   render_resolution := v\<rparr>;
            c3 = (if has_value (ud_aov (update_data c2)) then pop_aov c2 else c2);
            c4 = c3\<lparr>scene_renderer :=
                     update_render_resolution (scene_renderer c3) (render_resolution c3)\<rparr>
        in Done () (set_need_scene_redraw c4 True)
      else if has_value (ud_aov (update_data c)) then
        let c1 = pop_aov c
        in case render_layers (scene_renderer c1) of
             None \<Rightarrow> Raised AttributeError c1
           | Some layers \<Rightarrow>
               Done () (set_need_scene_redraw
                 (c1\<lparr>scene_renderer := emit [RenderLayersUpdate (aov c1)] (scene_renderer c1)\<rparr>) True)
      else Done () c)"

definition check_region :: "SceneRendererThreaded \<Rightarrow> SceneRendererThreaded" where
  "check_region c =
     (if has_value (ud_render_region (update_data c)) then
        let c1 = log_debug ''render_region changed to '' c;
            (v, block) = pop_value (ud_render_region (update_data c1));
            c2 = c1\<lparr>update_data := (update_data c1)\<lparr>ud_render_region := block\<rparr>,
                   render_region := v\<rparr>;
            c3 = c2\<lparr>scene_renderer := update_render_region (scene_renderer c2) (render_region c2)\<rparr>
        in set_need_scene_redraw c3 True
      else c)"

definition check_camera :: "SceneRendererThreaded \<Rightarrow> (unit, SceneRendererThreaded) outcome" where
  "check_camera c =
     (if has_value (ud_render_camera (update_data c)) then
        let c1 = log_debug ''render_camera changed to '' c;
            (v, block) = pop_value (ud_render_camera (update_data c1));
            c2 = c1\<lparr>update_data := (update_data c1)\<lparr>ud_render_camera := block\<rparr>\<rparr>
        in case set_render_camera c2 v of
             Raised e c3 \<Rightarrow> Raised e c3
           | Done u c3 \<Rightarrow> Done () (set_need_scene_redraw c3 True)
      else Done () c)"

definition check_updates :: "SceneRendererThreaded \<Rightarrow> (unit, SceneRendererThreaded) outcome" where
  "check_updates c =
     (case check_resolution_aov c of
        Raised e c1 \<Rightarrow> Raised e c1
      | Done u c1 \<Rightarrow> check_camera (check_region c1))"

text \<open>The setters of the host thread, which only write the inbox.\<close>

definition threaded_update_render_resolution ::
  "SceneRendererThreaded \<Rightarrow> resolution option \<Rightarrow> SceneRendererThreaded" where
  "threaded_update_render_resolution c v =
     c\<lparr>update_data := (update_data c)\<lparr>ud_render_resolution :=
          update_block (ud_render_resolution (update_data c)) (render_resolution c) v\<rparr>\<rparr>"


definition threaded_update_aov ::
  "SceneRendererThreaded \<Rightarrow> aov_settings option \<Rightarrow> SceneRendererThreaded" where
  "threaded_update_aov c v =
     c\<lparr>update_data := (update_data c)\<lparr>ud_aov :=
          update_block (ud_aov (update_data c)) (aov c) v\<rparr>\<rparr>"

definition threaded_update_render_camera ::
  "SceneRendererThreaded \<Rightarrow> camera option \<Rightarrow> SceneRendererThreaded" where
  "threaded_update_render_camera c v =
     c\<lparr>update_data := (update_data c)\<lparr>ud_render_camera :=
          update_block (ud_render_camera (update_data c)) (render_camera c) v\<rparr>\<rparr>"

subsection \<open>The worker thread\<close>

text \<open>\<^verbatim>\<open>start\<close>, \<^verbatim>\<open>start_noninteractive\<close> and \<^verbatim>\<open>_start\<close>; a started thread is alive.\<close>

definition start_thread :: "SceneRendererThreaded \<Rightarrow> SceneRendererThreaded" where
  "start_thread c = c\<lparr>stop_requested := False,
                       thread := Some \<lparr>terminate_event = False, alive = True\<rparr>\<rparr>"

definition start :: "SceneRendererThreaded \<Rightarrow> SceneRendererThreaded" where
  "start c = start_thread (c\<lparr>sleep_delay := Some (1 / 100)\<rparr>)"

definition start_noninteractive :: "SceneRendererThreaded \<Rightarrow> SceneRendererThreaded" where
  "start_noninteractive c = start_thread (set_need_scene_redraw (c\<lparr>sleep_delay := Some 0\<rparr>) True)"

definition is_alive :: "SceneRendererThreaded \<Rightarrow> (bool, SceneRendererThreaded) outcome" where
  "is_alive c = (case thread c of
                   None \<Rightarrow> Raised AttributeError c
                 | Some t \<Rightarrow> Done (alive t) c)"

definition is_render_completed :: "SceneRendererThreaded \<Rightarrow> (bool, SceneRendererThreaded) outcome" where
  "is_render_completed c =
     (case is_alive c of
        Raised e c1 \<Rightarrow> Raised e c1
      | Done a c1 \<Rightarrow> if \<not> a then Done True c1 else Done (render_completed_event c1) c1)"

definition terminate :: "RenderThread \<Rightarrow> RenderThread" where
  "terminate t = t\<lparr>terminate_event := True\<rparr>"

text \<open>
  \<^verbatim>\<open>Thread.join()\<close> returns at once on a thread that has ended. On a running thread
  the caller waits for the worker to end, which is the worker's doing: no result here.
\<close>

definition join :: "RenderThread \<Rightarrow> RenderThread option" where
  "join t = (if alive t then None else Some t)"

definition stop :: "SceneRendererThreaded \<Rightarrow> SceneRendererThreaded option" where
  "stop c =
     (let c1 = c\<lparr>stop_requested := True\<rparr>
      in case thread c1 of
           None \<Rightarrow> Some c1
         | Some t \<Rightarrow> (case join (terminate t) of
                        None \<Rightarrow> None
                      | Some t1 \<Rightarrow> Some (c1\<lparr>thread := None\<rparr>)))"

text \<open>
  \<^verbatim>\<open>SceneRendererThreaded.render_proc\<close>, the tick, run with no call of the host thread
  in between. Its second loop ends only when the generator does, so it may run forever:
  then there is no result.
\<close>

partial_function (option) render_loop ::
  "Env \<Rightarrow> SceneRendererThreaded \<Rightarrow> RenderProc \<Rightarrow> (unit, SceneRendererThreaded) outcome option" where
  "render_loop env c g =
     (if stop_requested c then Some (Done () (c\<lparr>render_completed_event := True\<rparr>))
      else case check_updates c of
             Raised e c1 \<Rightarrow> Some (Raised e c1)
           | Done u c1 \<Rightarrow>
               if need_scene_redraw c1 then Some (Done () c1)
               else (case gen_next env (scene_renderer c1) g of
                       Raised e s \<Rightarrow>
                         if e = StopIteration
                         then Some (Done () (c1\<lparr>scene_renderer := fst s,
                                                render_completed_event := True\<rparr>))
                         else Some (Raised e (c1\<lparr>scene_renderer := fst s\<rparr>))
                     | Done b s \<Rightarrow> render_loop env (c1\<lparr>scene_renderer := fst s\<rparr>) (snd s)))"

definition threaded_render_proc ::
  "Env \<Rightarrow> SceneRendererThreaded \<Rightarrow> (unit, SceneRendererThreaded) outcome option" where
  "threaded_render_proc env c =
     (let render_iter = render_proc
      in case check_updates c of
           Raised e c1 \<Rightarrow> Some (Raised e c1)
         | Done u c1 \<Rightarrow>
             if \<not> need_scene_redraw c1 then Some (Done () c1)
             else render_loop env
                    (c1\<lparr>need_scene_redraw := False, render_completed_event := False\<rparr>)
                    render_iter)"

text \<open>
  One pass of the loop of \<^verbatim>\<open>RenderThread.run\<close>: the thread ends when its
  \<^verbatim>\<open>terminate_event\<close> is set, and it ends when the tick raises, since nothing catches
  the exception.
\<close>

definition run_pass :: "Env \<Rightarrow> SceneRendererThreaded \<Rightarrow> SceneRendererThreaded option" where
  "run_pass env c =
     (case thread c of
        None \<Rightarrow> Some c
      | Some t \<Rightarrow>
          if \<not> alive t then Some c
          else if terminate_event t then Some (c\<lparr>thread := Some (t\<lparr>alive := False\<rparr>)\<rparr>)
          else (case threaded_render_proc env c of
                  None \<Rightarrow> None
                | Some (Done u c1) \<Rightarrow> Some c1
                | Some (Raised e c1) \<Rightarrow>
                    Some (c1\<lparr>thread := map_option (\<lambda>t1. t1\<lparr>alive := False\<rparr>) (thread c1)\<rparr>)))"

section \<open>Properties\<close>

text \<open>
  C1. For every block, current value and new value: when a value is pending and the block's
  predicate relates it to the new value, \<^verbatim>\<open>update_block\<close> leaves the block as it is;
  otherwise, when the predicate relates the current value to the new one, nothing is pending
  afterwards and nothing is stored (the block is untouched when nothing was pending);
  otherwise the new value is pending afterwards, whatever was pending before.
\<close>

theorem update_block_cases:
  "(has_value block \<and> equal_ub block (value_ub block) new
      \<longrightarrow> update_block block cur new = block)
   \<and> (\<not> (has_value block \<and> equal_ub block (value_ub block) new) \<and> equal_ub block cur new
      \<longrightarrow> update_block block cur new = block\<lparr>has_value := False\<rparr>
          \<and> (\<not> has_value block \<longrightarrow> update_block block cur new = block))
   \<and> (\<not> (has_value block \<and> equal_ub block (value_ub block) new) \<and> \<not> equal_ub block cur new
      \<longrightarrow> update_block block cur new = block\<lparr>has_value := True, value_ub := new\<rparr>)"
  by (simp add: update_block_def del_value_def set_value_def)

theorem update_block_cases_witness:
  "update_block \<lparr>value_ub = Some (640::int, 480::int), has_value = True, equal_ub = (=)\<rparr>
      None (Some (640, 480))
     = \<lparr>value_ub = Some (640, 480), has_value = True, equal_ub = (=)\<rparr>
   \<and> update_block \<lparr>value_ub = Some (640::int, 480::int), has_value = True, equal_ub = (=)\<rparr>
      None None
     = \<lparr>value_ub = Some (640, 480), has_value = False, equal_ub = (=)\<rparr>
   \<and> update_block \<lparr>value_ub = None, has_value = False, equal_ub = (=)\<rparr>
      (Some (640::int, 480::int)) (Some (640, 480))
     = \<lparr>value_ub = None, has_value = False, equal_ub = (=)\<rparr>
   \<and> update_block \<lparr>value_ub = Some (640::int, 480::int), has_value = True, equal_ub = (=)\<rparr>
      None (Some (800, 600))
     = \<lparr>value_ub = Some (800, 600), has_value = True, equal_ub = (=)\<rparr>"
  using
    update_block_cases [of "\<lparr>value_ub = Some (640::int, 480::int), has_value = True, equal_ub = (=)\<rparr>"
      "Some (640, 480)" None]
    update_block_cases [of "\<lparr>value_ub = Some (640::int, 480::int), has_value = True, equal_ub = (=)\<rparr>"
      None None]
    update_block_cases [of "\<lparr>value_ub = None, has_value = False, equal_ub = (=)\<rparr>"
      "Some (640::int, 480::int)" "Some (640, 480)"]
    update_block_cases [of "\<lparr>value_ub = Some (640::int, 480::int), has_value = True, equal_ub = (=)\<rparr>"
      "Some (800, 600)" None]
  by simp

subsection \<open>The inbox keeps the latest value\<close>

lemma equal_ub_update_block [simp]: "equal_ub (update_block b cur new) = equal_ub b"
  by (simp add: update_block_def del_value_def set_value_def)

lemma update_blocks_append:
  "update_blocks b (xs @ ys) = update_blocks (update_blocks b xs) ys"
  by (induction b xs rule: update_blocks.induct) simp_all

lemma update_blocks_snoc:
  "update_blocks b (xs @ [(cur, new)]) = update_block (update_blocks b xs) cur new"
  by (simp add: update_blocks_append)

lemma equal_ub_update_blocks [simp]: "equal_ub (update_blocks b calls) = equal_ub b"
  by (induction b calls rule: update_blocks.induct) simp_all

text \<open>What is pending after a run of calls is decided by the last call.\<close>

lemma update_blocks_last:
  assumes "calls \<noteq> []"
  shows "(has_value (update_blocks b calls)
            \<and> (value_ub (update_blocks b calls) = snd (last calls)
                \<or> equal_ub b (value_ub (update_blocks b calls)) (snd (last calls))))
         \<or> (\<not> has_value (update_blocks b calls)
            \<and> equal_ub b (fst (last calls)) (snd (last calls)))"
proof -
  obtain xs cur new where c: "calls = xs @ [(cur, new)]"
    using assms by (metis rev_exhaust surj_pair)
  show ?thesis
    unfolding c update_blocks_snoc
    by (simp add: update_block_def del_value_def set_value_def)
qed

text \<open>
  A pending value is the one stored by the latest storing call, and every call after that
  one found it equal to its own value; or no call stored and the value pending at the start
  is still there.
\<close>

lemma update_blocks_pending:
  "has_value (update_blocks b calls) \<Longrightarrow>
     (\<exists>pre cur v post. calls = pre @ (cur, v) # post
         \<and> value_ub (update_blocks b calls) = v
         \<and> (\<forall>w \<in> snd ` set post. equal_ub b v w))
     \<or> (has_value b \<and> value_ub (update_blocks b calls) = value_ub b
         \<and> (\<forall>w \<in> snd ` set calls. equal_ub b (value_ub b) w))"
proof (induction calls rule: rev_induct)
  case Nil
  then show ?case by simp
next
  case (snoc x xs)
  obtain cur new where x: "x = (cur, new)" by (cases x)
  let ?m = "update_blocks b xs"
  have hv: "has_value (update_block ?m cur new)"
    using snoc.prems by (simp add: x update_blocks_snoc)
  show ?case
  proof (cases "has_value ?m \<and> equal_ub b (value_ub ?m) new")
    case True
    then have same: "update_blocks b (xs @ [x]) = ?m"
      by (simp add: x update_blocks_snoc update_block_def)
    from True snoc.IH have
      "(\<exists>pre cur v post. xs = pre @ (cur, v) # post \<and> value_ub ?m = v
           \<and> (\<forall>w \<in> snd ` set post. equal_ub b v w))
       \<or> (has_value b \<and> value_ub ?m = value_ub b
           \<and> (\<forall>w \<in> snd ` set xs. equal_ub b (value_ub b) w))"
      by simp
    then show ?thesis
    proof
      assume "\<exists>pre cur v post. xs = pre @ (cur, v) # post \<and> value_ub ?m = v
           \<and> (\<forall>w \<in> snd ` set post. equal_ub b v w)"
      then obtain pre c v post where s: "xs = pre @ (c, v) # post" "value_ub ?m = v"
          "\<forall>w \<in> snd ` set post. equal_ub b v w" by blast
      have "xs @ [x] = pre @ (c, v) # (post @ [x])" using s by simp
      moreover have "\<forall>w \<in> snd ` set (post @ [x]). equal_ub b v w"
        using s True by (auto simp: x)
      ultimately show ?thesis using s(2) same by metis
    next
      assume "has_value b \<and> value_ub ?m = value_ub b
           \<and> (\<forall>w \<in> snd ` set xs. equal_ub b (value_ub b) w)"
      then show ?thesis using True same by (auto simp: x)
    qed
  next
    case False
    with hv have st: "update_block ?m cur new = set_value ?m new"
      by (auto simp add: update_block_def del_value_def split: if_splits)
    have "xs @ [x] = xs @ (cur, new) # []" by (simp add: x)
    moreover have "value_ub (update_blocks b (xs @ [x])) = new"
      by (simp add: x update_blocks_snoc st set_value_def)
    ultimately show ?thesis by (metis empty_iff image_empty list.set(1))
  qed
qed

subsection \<open>Replacing the render targets\<close>

lemma trace_update_render_resolution:
  "trace (update_render_resolution sr res) =
     trace sr @ (case render_targets sr of None \<Rightarrow> [] | Some t \<Rightarrow> [DetachRenderTarget t])
       @ [NewRenderTargets (targets_built sr) res,
          NewRenderLayers (aov_settings sr) (targets_built sr),
          AttachRenderTarget (targets_built sr)]"
  by (simp add: update_render_resolution_def detach_previous_def emit_def Let_def
        split: option.splits)

text \<open>
  C9. When a render target set is attached, \<^verbatim>\<open>update_render_resolution\<close> detaches it
  first, then builds the new set and the new layers, then attaches the new set; so, starting
  with the old set as the only one attached, after every prefix of these calls at most one
  set is attached, and the new one at the end.
\<close>

theorem update_render_resolution_detaches_first:
  assumes "render_targets sr = Some old"
  shows "trace (update_render_resolution sr res) =
           trace sr @ [DetachRenderTarget old,
                       NewRenderTargets (targets_built sr) res,
                       NewRenderLayers (aov_settings sr) (targets_built sr),
                       AttachRenderTarget (targets_built sr)]
         \<and> render_targets (update_render_resolution sr res) = Some (targets_built sr)
         \<and> resolution (update_render_resolution sr res) = res
         \<and> (\<forall>n. length (attached_after [old]
                  (take n (drop (length (trace sr)) (trace (update_render_resolution sr res))))) \<le> 1)
         \<and> attached_after [old] (drop (length (trace sr)) (trace (update_render_resolution sr res)))
             = [targets_built sr]"
proof -
  let ?es = "[DetachRenderTarget old, NewRenderTargets (targets_built sr) res,
       NewRenderLayers (aov_settings sr) (targets_built sr), AttachRenderTarget (targets_built sr)]"
  have tr: "trace (update_render_resolution sr res) = trace sr @ ?es"
    using assms by (simp add: trace_update_render_resolution)
  have rt: "render_targets (update_render_resolution sr res) = Some (targets_built sr)"
    by (simp add: update_render_resolution_def detach_previous_def emit_def Let_def
          split: option.splits)
  have rs: "resolution (update_render_resolution sr res) = res"
    by (simp add: update_render_resolution_def detach_previous_def emit_def Let_def
          split: option.splits)
  have pre: "length (attached_after [old] (take n ?es)) \<le> 1" for n
  proof -
    consider "n = 0" | "n = 1" | "n = 2" | "n = 3" | "n \<ge> 4" by linarith
    then show ?thesis
      by cases (simp_all add: numeral_2_eq_2 numeral_3_eq_3)
  qed
  show ?thesis using tr rt rs pre by simp
qed

theorem update_render_resolution_detaches_first_witness:
  "render_targets (update_render_resolution
       (SceneRenderer_init \<lparr>rendering_limits =
          \<lparr>enable = False, limit_type = ''ITER'', iterations = 5, time = 0\<rparr>\<rparr> False)
       (Some (640, 480))) = Some 0
   \<and> drop 3 (trace (update_render_resolution (update_render_resolution
       (SceneRenderer_init \<lparr>rendering_limits =
          \<lparr>enable = False, limit_type = ''ITER'', iterations = 5, time = 0\<rparr>\<rparr> False)
       (Some (640, 480))) (Some (800, 600))))
     = [DetachRenderTarget 0, NewRenderTargets 1 (Some (800, 600)), NewRenderLayers None 1,
        AttachRenderTarget 1]"
proof -
  let ?sr = "update_render_resolution
       (SceneRenderer_init \<lparr>rendering_limits =
          \<lparr>enable = False, limit_type = ''ITER'', iterations = 5, time = 0\<rparr>\<rparr> False)
       (Some (640, 480))"
  have h: "render_targets ?sr = Some 0"
    by (simp add: update_render_resolution_def detach_previous_def emit_def Let_def
          SceneRenderer_init_def)
  have t: "trace ?sr = [NewRenderTargets 0 (Some (640, 480)), NewRenderLayers None 0,
                         AttachRenderTarget 0]"
    by (simp add: update_render_resolution_def detach_previous_def emit_def Let_def
          SceneRenderer_init_def)
  have b: "targets_built ?sr = 1" "aov_settings ?sr = None"
    by (simp_all add: update_render_resolution_def detach_previous_def emit_def Let_def
          SceneRenderer_init_def)
  from update_render_resolution_detaches_first [OF h, of "Some (800, 600)"] h t b
  show ?thesis by simp
qed

subsection \<open>check_updates\<close>

lemmas check_defs = check_updates_def check_resolution_aov_def check_region_def check_camera_def
  pop_aov_def log_debug_def pop_value_def set_need_scene_redraw_def set_render_camera_def
  update_render_region_def emit_def Let_def

text \<open>
  C2. Provided the attribute lookups of \<^verbatim>\<open>check_updates\<close> succeed (render layers exist
  when only an AOV change is pending, a scene-sync object is set when a camera change is
  pending), it returns, and what it did is, in this order: the resolution change, with a
  pending AOV change popped and assigned inside it, or else the AOV change with
  \<^verbatim>\<open>render_layers.update\<close>; then the region change; then the camera change. Any applied
  change sets \<^verbatim>\<open>need_scene_redraw\<close> and clears the completion event, all four blocks are
  empty afterwards, and a resolution change never calls \<^verbatim>\<open>render_layers.update\<close>.
\<close>

theorem check_updates_priority_order:
  assumes layers: "has_value (ud_render_resolution (update_data c))
           \<or> \<not> has_value (ud_aov (update_data c))
           \<or> render_layers (scene_renderer c) \<noteq> None"
      and synced: "has_value (ud_render_camera (update_data c)) \<longrightarrow> scene_synced c \<noteq> None"
  shows "\<exists>c'. check_updates c = Done () c'
      \<and> (let ud = update_data c; sr = scene_renderer c;
              res = has_value (ud_render_resolution ud); av = has_value (ud_aov ud);
              reg = has_value (ud_render_region ud); cam = has_value (ud_render_camera ud);
              t = targets_built sr
          in trace (scene_renderer c') = trace sr
               @ (if res then
                    [LogDebug ''resolution changed to '']
                    @ (if av then [LogDebug ''aov changed to ''] else [])
                    @ (case render_targets sr of None \<Rightarrow> [] | Some old \<Rightarrow> [DetachRenderTarget old])
                    @ [NewRenderTargets t (value_ub (ud_render_resolution ud)),
                       NewRenderLayers (if av then value_ub (ud_aov ud) else aov_settings sr) t,
                       AttachRenderTarget t]
                  else if av then
                    [LogDebug ''aov changed to '', RenderLayersUpdate (value_ub (ud_aov ud))]
                  else [])
               @ (if reg then [LogDebug ''render_region changed to ''] else [])
               @ (if cam then [LogDebug ''render_camera changed to '',
                               SceneSyncedSetRenderCamera (value_ub (ud_render_camera ud))]
                  else [])
            \<and> need_scene_redraw c' = (need_scene_redraw c \<or> res \<or> av \<or> reg \<or> cam)
            \<and> (res \<or> av \<or> reg \<or> cam \<longrightarrow> \<not> render_completed_event c')
            \<and> \<not> has_value (ud_render_resolution (update_data c'))
            \<and> \<not> has_value (ud_aov (update_data c'))
            \<and> \<not> has_value (ud_render_region (update_data c'))
            \<and> \<not> has_value (ud_render_camera (update_data c'))
            \<and> (res \<longrightarrow> render_resolution c' = value_ub (ud_render_resolution ud)
                      \<and> resolution (scene_renderer c') = value_ub (ud_render_resolution ud))
            \<and> (av \<longrightarrow> aov c' = value_ub (ud_aov ud)
                      \<and> aov_settings (scene_renderer c') = value_ub (ud_aov ud))
            \<and> (reg \<longrightarrow> render_region c' = value_ub (ud_render_region ud)
                      \<and> region (scene_renderer c') = value_ub (ud_render_region ud))
            \<and> (cam \<longrightarrow> render_camera c' = value_ub (ud_render_camera ud))
            \<and> (res \<longrightarrow> (\<forall>v. RenderLayersUpdate v
                    \<notin> set (drop (length (trace sr)) (trace (scene_renderer c'))))))"
proof -
  obtain ss where "has_value (ud_render_camera (update_data c)) \<longrightarrow> scene_synced c = Some ss"
    using synced by (cases "scene_synced c") auto
  then show ?thesis
    using layers
    apply (cases "has_value (ud_render_resolution (update_data c))";
           cases "has_value (ud_aov (update_data c))";
           cases "has_value (ud_render_region (update_data c))";
           cases "has_value (ud_render_camera (update_data c))")
    by (auto simp add: check_defs trace_update_render_resolution update_render_resolution_def
          detach_previous_def split: option.splits)
qed

theorem check_updates_priority_order_witness:
  "(\<exists>c'. check_updates
      (threaded_update_render_camera
        (threaded_update_aov
          (threaded_update_render_resolution
            ((SceneRendererThreaded_init (\<lambda>a b. False)
               (SceneRenderer_init \<lparr>rendering_limits =
                 \<lparr>enable = False, limit_type = ''ITER'', iterations = 5, time = 0\<rparr>\<rparr> False))
             \<lparr>scene_synced := Some \<lparr>camera_zoom = None, zoom_for = (\<lambda>cam. Some 2)\<rparr>\<rparr>)
            (Some (640, 480)))
          (Some 7))
        (Some 3)) = Done () c'
     \<and> trace (scene_renderer c') =
         [LogDebug ''resolution changed to '', LogDebug ''aov changed to '',
          NewRenderTargets 0 (Some (640, 480)), NewRenderLayers (Some 7) 0, AttachRenderTarget 0,
          LogDebug ''render_region changed to '',
          LogDebug ''render_camera changed to '', SceneSyncedSetRenderCamera (Some 3)]
     \<and> need_scene_redraw c'
     \<and> aov_settings (scene_renderer c') = Some 7)"
proof -
  let ?c = "threaded_update_render_camera
        (threaded_update_aov
          (threaded_update_render_resolution
            ((SceneRendererThreaded_init (\<lambda>a b. False)
               (SceneRenderer_init \<lparr>rendering_limits =
                 \<lparr>enable = False, limit_type = ''ITER'', iterations = 5, time = 0\<rparr>\<rparr> False))
             \<lparr>scene_synced := Some \<lparr>camera_zoom = None, zoom_for = (\<lambda>cam. Some 2)\<rparr>\<rparr>)
            (Some (640, 480)))
          (Some 7))
        (Some 3)"
  note defs = threaded_update_render_camera_def threaded_update_aov_def
    threaded_update_render_resolution_def SceneRendererThreaded_init_def SceneRenderer_init_def
    UpdateData_init_def UpdateBlock_init_def update_block_def set_value_def del_value_def
    array_equal_def default_value_def default_has_value_def
  have ud: "has_value (ud_render_resolution (update_data ?c))"
      "has_value (ud_aov (update_data ?c))"
      "has_value (ud_render_region (update_data ?c))"
      "has_value (ud_render_camera (update_data ?c))"
      "value_ub (ud_render_resolution (update_data ?c)) = Some (640, 480)"
      "value_ub (ud_aov (update_data ?c)) = Some 7"
      "value_ub (ud_render_camera (update_data ?c)) = Some 3"
    by (simp_all add: defs)
  have sr: "trace (scene_renderer ?c) = []" "targets_built (scene_renderer ?c) = 0"
      "render_targets (scene_renderer ?c) = None"
    by (simp_all add: defs)
  have h1: "has_value (ud_render_resolution (update_data ?c))
           \<or> \<not> has_value (ud_aov (update_data ?c))
           \<or> render_layers (scene_renderer ?c) \<noteq> None"
    using ud by simp
  have h2: "has_value (ud_render_camera (update_data ?c)) \<longrightarrow> scene_synced ?c \<noteq> None"
    by (simp add: defs)
  from check_updates_priority_order [OF h1 h2] ud sr
  show ?thesis by (auto simp add: Let_def)
qed

lemma check_updates_idle:
  "\<not> has_value (ud_render_resolution (update_data c)) \<Longrightarrow> \<not> has_value (ud_aov (update_data c))
   \<Longrightarrow> \<not> has_value (ud_render_region (update_data c))
   \<Longrightarrow> \<not> has_value (ud_render_camera (update_data c))
   \<Longrightarrow> check_updates c = Done () c"
  by (simp add: check_updates_def check_resolution_aov_def check_region_def check_camera_def)

lemma check_updates_resolution_pending:
  assumes res: "has_value (ud_render_resolution (update_data c))"
      and synced: "has_value (ud_render_camera (update_data c)) \<longrightarrow> scene_synced c \<noteq> None"
  shows "\<exists>c'. check_updates c = Done () c'
      \<and> render_resolution c' = value_ub (ud_render_resolution (update_data c))
      \<and> resolution (scene_renderer c') = value_ub (ud_render_resolution (update_data c))
      \<and> need_scene_redraw c'
      \<and> filter (\<lambda>e. case e of NewRenderTargets t r \<Rightarrow> True | _ \<Rightarrow> False)
           (drop (length (trace (scene_renderer c))) (trace (scene_renderer c')))
          = [NewRenderTargets (targets_built (scene_renderer c))
               (value_ub (ud_render_resolution (update_data c)))]
      \<and> \<not> has_value (ud_render_resolution (update_data c'))
      \<and> \<not> has_value (ud_aov (update_data c'))
      \<and> \<not> has_value (ud_render_region (update_data c'))
      \<and> \<not> has_value (ud_render_camera (update_data c'))"
proof -
  obtain ss where "has_value (ud_render_camera (update_data c)) \<longrightarrow> scene_synced c = Some ss"
    using synced by (cases "scene_synced c") auto
  then show ?thesis
    using res
    apply (cases "has_value (ud_aov (update_data c))";
           cases "has_value (ud_render_region (update_data c))";
           cases "has_value (ud_render_camera (update_data c))")
    by (auto simp add: check_defs trace_update_render_resolution update_render_resolution_def detach_previous_def
           split: option.splits)
qed

lemma two_resolution_updates:
  assumes "equal_ub (ud_render_resolution (update_data c)) = array_equal"
      and "R2 \<noteq> render_resolution c"
  shows "threaded_update_render_resolution (threaded_update_render_resolution c R1) R2
         = c\<lparr>update_data := (update_data c)\<lparr>ud_render_resolution :=
               (ud_render_resolution (update_data c))\<lparr>has_value := True, value_ub := R2\<rparr>\<rparr>\<rparr>"
  using assms
  by (auto simp add: threaded_update_render_resolution_def update_block_def array_equal_def
        del_value_def set_value_def)

text \<open>
  C7. After any run of \<^verbatim>\<open>update_block\<close> calls on one block with no
  \<^verbatim>\<open>pop_value\<close> between them, the slot is decided by the last call (it holds the last
  value, or one the block's predicate takes for it, or it is empty because the last value is
  the applied one), and a pending value is the one stored most recently, every later call
  having found it equal to its own. For the coordinator: after
  \<^verbatim>\<open>update_render_resolution(R1)\<close> and \<^verbatim>\<open>update_render_resolution(R2)\<close>, with
  \<open>R2\<close> not the applied resolution, \<^verbatim>\<open>check_updates\<close> builds render targets once, for
  \<open>R2\<close>, asks for a redraw, and a second \<^verbatim>\<open>check_updates\<close> changes nothing.
\<close>

theorem coalescing_keeps_latest:
  "(calls \<noteq> [] \<longrightarrow>
      (has_value (update_blocks b calls)
         \<and> (value_ub (update_blocks b calls) = snd (last calls)
             \<or> equal_ub b (value_ub (update_blocks b calls)) (snd (last calls))))
      \<or> (\<not> has_value (update_blocks b calls)
         \<and> equal_ub b (fst (last calls)) (snd (last calls))))
   \<and> (has_value (update_blocks b calls) \<longrightarrow>
        (\<exists>pre cur v post. calls = pre @ (cur, v) # post
            \<and> value_ub (update_blocks b calls) = v
            \<and> (\<forall>w \<in> snd ` set post. equal_ub b v w))
        \<or> (has_value b \<and> value_ub (update_blocks b calls) = value_ub b
            \<and> (\<forall>w \<in> snd ` set calls. equal_ub b (value_ub b) w)))
   \<and> (equal_ub (ud_render_resolution (update_data c)) = array_equal
        \<and> R2 \<noteq> render_resolution c
        \<and> (has_value (ud_render_camera (update_data c)) \<longrightarrow> scene_synced c \<noteq> None)
      \<longrightarrow> (\<exists>c'. check_updates
                  (threaded_update_render_resolution (threaded_update_render_resolution c R1) R2)
                = Done () c'
             \<and> render_resolution c' = R2
             \<and> resolution (scene_renderer c') = R2
             \<and> need_scene_redraw c'
             \<and> filter (\<lambda>e. case e of NewRenderTargets t r \<Rightarrow> True | _ \<Rightarrow> False)
                  (drop (length (trace (scene_renderer c))) (trace (scene_renderer c')))
                = [NewRenderTargets (targets_built (scene_renderer c)) R2]
             \<and> check_updates c' = Done () c'))"
proof (intro conjI impI)
  assume "calls \<noteq> []"
  then show "(has_value (update_blocks b calls)
         \<and> (value_ub (update_blocks b calls) = snd (last calls)
             \<or> equal_ub b (value_ub (update_blocks b calls)) (snd (last calls))))
      \<or> (\<not> has_value (update_blocks b calls)
         \<and> equal_ub b (fst (last calls)) (snd (last calls)))"
    by (rule update_blocks_last)
next
  assume "has_value (update_blocks b calls)"
  then show "(\<exists>pre cur v post. calls = pre @ (cur, v) # post
            \<and> value_ub (update_blocks b calls) = v
            \<and> (\<forall>w \<in> snd ` set post. equal_ub b v w))
        \<or> (has_value b \<and> value_ub (update_blocks b calls) = value_ub b
            \<and> (\<forall>w \<in> snd ` set calls. equal_ub b (value_ub b) w))"
    by (rule update_blocks_pending)
next
  assume a: "equal_ub (ud_render_resolution (update_data c)) = array_equal
        \<and> R2 \<noteq> render_resolution c
        \<and> (has_value (ud_render_camera (update_data c)) \<longrightarrow> scene_synced c \<noteq> None)"
  let ?c2 = "threaded_update_render_resolution (threaded_update_render_resolution c R1) R2"
  have c2: "?c2 = c\<lparr>update_data := (update_data c)\<lparr>ud_render_resolution :=
               (ud_render_resolution (update_data c))\<lparr>has_value := True, value_ub := R2\<rparr>\<rparr>\<rparr>"
    using a by (simp add: two_resolution_updates)
  have p: "has_value (ud_render_resolution (update_data ?c2))"
    and v: "value_ub (ud_render_resolution (update_data ?c2)) = R2"
    and s: "has_value (ud_render_camera (update_data ?c2)) \<longrightarrow> scene_synced ?c2 \<noteq> None"
    and t: "scene_renderer ?c2 = scene_renderer c"
    using a by (simp_all add: c2)
  from check_updates_resolution_pending [OF p s] obtain c' where
    c': "check_updates ?c2 = Done () c'"
      "render_resolution c' = R2" "resolution (scene_renderer c') = R2" "need_scene_redraw c'"
      "filter (\<lambda>e. case e of NewRenderTargets t r \<Rightarrow> True | _ \<Rightarrow> False)
           (drop (length (trace (scene_renderer c))) (trace (scene_renderer c')))
          = [NewRenderTargets (targets_built (scene_renderer c)) R2]"
      "\<not> has_value (ud_render_resolution (update_data c'))"
      "\<not> has_value (ud_aov (update_data c'))"
      "\<not> has_value (ud_render_region (update_data c'))"
      "\<not> has_value (ud_render_camera (update_data c'))"
    unfolding v t by blast
  have "check_updates c' = Done () c'"
    using c'(6-9) by (rule check_updates_idle)
  with c'(1-5) show "\<exists>c'. check_updates ?c2 = Done () c'
             \<and> render_resolution c' = R2
             \<and> resolution (scene_renderer c') = R2
             \<and> need_scene_redraw c'
             \<and> filter (\<lambda>e. case e of NewRenderTargets t r \<Rightarrow> True | _ \<Rightarrow> False)
                  (drop (length (trace (scene_renderer c))) (trace (scene_renderer c')))
                = [NewRenderTargets (targets_built (scene_renderer c)) R2]
             \<and> check_updates c' = Done () c'"
    by blast
qed

theorem coalescing_keeps_latest_witness:
  "[(None, Some (640::int, 480::int)), (None, Some (800, 600))] \<noteq> []
   \<and> has_value (update_blocks \<lparr>value_ub = None, has_value = False, equal_ub = array_equal\<rparr>
        [(None, Some (640::int, 480::int)), (None, Some (800, 600))])
   \<and> value_ub (update_blocks \<lparr>value_ub = None, has_value = False, equal_ub = array_equal\<rparr>
        [(None, Some (640::int, 480::int)), (None, Some (800, 600))]) = Some (800, 600)
   \<and> equal_ub (ud_render_resolution (update_data (SceneRendererThreaded_init (\<lambda>a b. False)
        (SceneRenderer_init \<lparr>rendering_limits =
          \<lparr>enable = False, limit_type = ''ITER'', iterations = 5, time = 0\<rparr>\<rparr> False))))
      = array_equal
   \<and> Some (800, 600) \<noteq> render_resolution (SceneRendererThreaded_init (\<lambda>a b. False)
        (SceneRenderer_init \<lparr>rendering_limits =
          \<lparr>enable = False, limit_type = ''ITER'', iterations = 5, time = 0\<rparr>\<rparr> False))
   \<and> (\<exists>c'. check_updates
         (threaded_update_render_resolution (threaded_update_render_resolution
            (SceneRendererThreaded_init (\<lambda>a b. False)
              (SceneRenderer_init \<lparr>rendering_limits =
                \<lparr>enable = False, limit_type = ''ITER'', iterations = 5, time = 0\<rparr>\<rparr> False))
            (Some (640, 480))) (Some (800, 600))) = Done () c'
        \<and> render_resolution c' = Some (800, 600)
        \<and> resolution (scene_renderer c') = Some (800, 600)
        \<and> need_scene_redraw c'
        \<and> filter (\<lambda>e. case e of NewRenderTargets t r \<Rightarrow> True | _ \<Rightarrow> False)
             (trace (scene_renderer c')) = [NewRenderTargets 0 (Some (800, 600))]
        \<and> check_updates c' = Done () c')"
proof -
  let ?b = "\<lparr>value_ub = None, has_value = False, equal_ub = array_equal\<rparr>
              :: resolution option UpdateBlock"
  let ?calls = "[(None, Some (640::int, 480::int)), (None, Some (800, 600))]"
  let ?c = "SceneRendererThreaded_init (\<lambda>a b. False)
        (SceneRenderer_init \<lparr>rendering_limits =
          \<lparr>enable = False, limit_type = ''ITER'', iterations = 5, time = 0\<rparr>\<rparr> False)"
  have h1: "?calls \<noteq> []" by simp
  have h2: "has_value (update_blocks ?b ?calls)"
    by (simp add: update_block_def set_value_def del_value_def array_equal_def)
  have h3: "equal_ub (ud_render_resolution (update_data ?c)) = array_equal"
    by (simp add: SceneRendererThreaded_init_def UpdateData_init_def UpdateBlock_init_def)
  have h4: "Some (800, 600) \<noteq> render_resolution ?c"
    by (simp add: SceneRendererThreaded_init_def)
  have h5: "has_value (ud_render_camera (update_data ?c)) \<longrightarrow> scene_synced ?c \<noteq> None"
    by (simp add: SceneRendererThreaded_init_def UpdateData_init_def UpdateBlock_init_def)
  have v: "value_ub (update_blocks ?b ?calls) = Some (800, 600)"
    by (simp add: update_block_def set_value_def del_value_def array_equal_def)
  have e: "trace (scene_renderer ?c) = []" "targets_built (scene_renderer ?c) = 0"
    by (simp_all add: SceneRendererThreaded_init_def SceneRenderer_init_def)
  from coalescing_keeps_latest [of ?calls ?b ?c "Some (800, 600)" "Some (640, 480)"]
    h1 h2 h3 h4 h5 v e
  show ?thesis by simp
qed





subsection \<open>Float division below \<open>2 ^ 53\<close>\<close>

lemma round_half_even_bounds:
  "\<lfloor>x\<rfloor> \<le> round_half_even x \<and> round_half_even x \<le> \<lfloor>x\<rfloor> + 1"
  by (simp add: round_half_even_def Let_def)

lemma round_half_even_low:
  "x - of_int \<lfloor>x\<rfloor> < 1 / 2 \<Longrightarrow> round_half_even x = \<lfloor>x\<rfloor>"
  by (simp add: round_half_even_def Let_def)

lemma float_exponent_le:
  assumes "0 < A" "0 < B"
  shows "(2::rat) powi (float_exponent A B) * of_int B \<le> of_int A"
proof (cases "(2::rat) powi (bitlen A - bitlen B) * of_int B \<le> of_int A")
  case True
  then show ?thesis by (simp add: float_exponent_def Let_def)
next
  case False
  have bA: "2 ^ nat (bitlen A - 1) \<le> A" and bB: "B < 2 ^ nat (bitlen B)"
    using bitlen_bounds [OF assms(1)] bitlen_bounds [OF assms(2)] by simp_all
  have pA: "1 \<le> bitlen A" using assms(1) by (simp add: bitlen_alt_def)
  have pB: "0 \<le> bitlen B" by (rule bitlen_nonneg)
  have "(2::rat) powi (bitlen A - bitlen B - 1) = 2 powi ((bitlen A - 1) - bitlen B)"
    by (simp add: algebra_simps)
  also have "\<dots> = 2 powi (bitlen A - 1) / 2 powi (bitlen B)"
    by (rule power_int_diff) simp
  also have "\<dots> = 2 ^ nat (bitlen A - 1) / 2 ^ nat (bitlen B)"
    using pA pB by (simp add: power_int_def)
  finally have eq: "(2::rat) powi (bitlen A - bitlen B - 1)
      = 2 ^ nat (bitlen A - 1) / 2 ^ nat (bitlen B)" .
  have "(of_int B :: rat) < 2 ^ nat (bitlen B)"
    using bB by (metis of_int_less_iff of_int_numeral of_int_power)
  then have "(of_int B :: rat) / 2 ^ nat (bitlen B) \<le> 1" by simp
  then have "(2::rat) ^ nat (bitlen A - 1) * (of_int B / 2 ^ nat (bitlen B))
               \<le> 2 ^ nat (bitlen A - 1) * 1"
    by (intro mult_left_mono) simp_all
  also have "\<dots> \<le> of_int A"
    using bA by (metis mult.right_neutral of_int_le_iff of_int_numeral of_int_power)
  finally have "(2::rat) powi (bitlen A - bitlen B - 1) * of_int B \<le> of_int A"
    unfolding eq by (simp add: field_simps)
  with False show ?thesis by (simp add: float_exponent_def Let_def)
qed

lemma exponent_le_52:
  assumes "0 < A" "0 < B" "A < 2 ^ 53"
  shows "max (float_exponent A B) (- 1022) \<le> 52"
proof -
  have le: "(2::rat) powi (float_exponent A B) * of_int B \<le> of_int A"
    by (rule float_exponent_le [OF assms(1,2)])
  have "(1::rat) \<le> of_int B" using assms(2) by simp
  then have "(2::rat) powi (float_exponent A B) * 1 \<le> 2 powi (float_exponent A B) * of_int B"
    by (intro mult_left_mono) simp_all
  then have "(2::rat) powi (float_exponent A B) \<le> 2 powi (float_exponent A B) * of_int B"
    by (simp only: mult_1_right)
  from this le have "(2::rat) powi (float_exponent A B) \<le> of_int A" by (rule order_trans)
  also have "(of_int A :: rat) < 2 ^ 53"
    using assms(3) by (metis of_int_less_iff of_int_numeral of_int_power)
  finally have lt: "(2::rat) powi (float_exponent A B) < 2 powi 53" by simp
  have "float_exponent A B < 53"
  proof (rule ccontr)
    assume "\<not> float_exponent A B < 53"
    then have "(2::rat) powi 53 \<le> 2 powi (float_exponent A B)"
      by (intro power_int_increasing) simp_all
    with lt show False by simp
  qed
  then show ?thesis by simp
qed

lemma ulp_form:
  assumes "e \<le> 52"
  shows "(2::rat) powi (e - 52) = 1 / 2 ^ nat (52 - e)"
proof -
  have "(2::rat) powi (e - 52) = 2 powi (- (52 - e))" by simp
  also have "\<dots> = inverse (2 powi (52 - e))" by (rule power_int_minus)
  also have "\<dots> = 1 / 2 ^ nat (52 - e)"
    using assms by (simp add: power_int_def inverse_eq_divide)
  finally show ?thesis .
qed

lemma denominator_bound:
  assumes le: "(2::rat) powi e * of_int B \<le> of_int A"
      and A: "A < 2 ^ 53" and e: "e \<le> 52"
  shows "B < 2 * 2 ^ nat (52 - e)"
proof -
  have "(of_int A :: rat) < 2 ^ 53"
    using A by (metis of_int_less_iff of_int_numeral of_int_power)
  with le have lt: "(2::rat) powi e * of_int B < 2 ^ 53" by (rule le_less_trans)
  have p: "(2::rat) ^ 53 = 2 powi e * (2 * 2 ^ nat (52 - e))"
  proof -
    have "(2::rat) powi 53 = 2 powi (e + (53 - e))" by simp
    also have "\<dots> = 2 powi e * 2 powi (53 - e)" by (rule power_int_add) simp
    also have "(2::rat) powi (53 - e) = 2 ^ nat (53 - e)"
      using e by (simp add: power_int_def)
    also have "nat (53 - e) = Suc (nat (52 - e))" using e by simp
    finally show ?thesis by simp
  qed
  have pos: "(0::rat) < 2 powi e" by simp
  from lt [unfolded p]
  have "(of_int B :: rat) < 2 * 2 ^ nat (52 - e)"
    by (simp only: mult_less_cancel_left_pos [OF pos])
  then have "(of_int B :: rat) < of_int (2 * 2 ^ nat (52 - e))" by simp
  then show ?thesis by (simp only: of_int_less_iff)
qed

text \<open>The rounded mantissa of a quotient of at least 1, between the integers around it.\<close>

lemma mantissa_bounds:
  assumes A: "0 < A" and B: "0 < B" and M: "0 < M" and BM: "B < 2 * M"
  shows "(A div B) * M \<le> round_half_even (of_int A / of_int B * of_int M)"
    and "round_half_even (of_int A / of_int B * of_int M) \<le> (A div B + 1) * M - 1"
proof -
  let ?x = "(of_int A :: rat) / of_int B * of_int M"
  let ?k = "A div B"
  have Bq: "(0::rat) < of_int B" and Mq: "(0::rat) < of_int M" using B M by simp_all
  have "of_int ?k \<le> (of_int A :: rat) / of_int B"
    using B by (metis floor_divide_of_int_eq of_int_floor_le)
  then have "(of_int ?k :: rat) * of_int M \<le> ?x"
    using Mq by (intro mult_right_mono) simp_all
  then have "(of_int (?k * M) :: rat) \<le> ?x" by simp
  then have fl: "?k * M \<le> \<lfloor>?x\<rfloor>" by (simp only: le_floor_iff)
  with round_half_even_bounds [of ?x]
  show "?k * M \<le> round_half_even ?x" by linarith
  have "A < (?k + 1) * B"
    using B by (metis add.commute distrib_left div_mult_mod_eq mult.commute mult.right_neutral
        add_less_cancel_left pos_mod_bound)
  then have "A + 1 \<le> (?k + 1) * B" by simp
  then have "(of_int (A + 1) :: rat) \<le> of_int ((?k + 1) * B)" by (simp only: of_int_le_iff)
  then have "(of_int A :: rat) \<le> of_int (?k + 1) * of_int B - 1" by simp
  then have "(of_int A :: rat) / of_int B \<le> (of_int (?k + 1) * of_int B - 1) / of_int B"
    using Bq by (intro divide_right_mono) simp_all
  also have "\<dots> = of_int (?k + 1) - 1 / of_int B"
    using Bq by (simp add: diff_divide_distrib)
  finally have q_le: "(of_int A :: rat) / of_int B \<le> of_int (?k + 1) - 1 / of_int B" .
  have "?x \<le> (of_int (?k + 1) - 1 / of_int B) * of_int M"
    using q_le Mq by (intro mult_right_mono) simp_all
  also have "\<dots> = of_int ((?k + 1) * M) - of_int M / of_int B"
    by (simp add: left_diff_distrib)
  finally have x_le: "?x \<le> of_int ((?k + 1) * M) - of_int M / of_int B" .
  have "(of_int B :: rat) < 2 * of_int M"
    using BM by (metis of_int_less_iff of_int_mult of_int_numeral)
  then have "(of_int B :: rat) / of_int B < 2 * of_int M / of_int B"
    using Bq by (intro divide_strict_right_mono) simp_all
  then have "(1::rat) < 2 * of_int M / of_int B" using Bq by simp
  then have "(1::rat) < 2 * (of_int M / of_int B)" by (simp only: times_divide_eq_right)
  then have half: "(1::rat) / 2 < of_int M / of_int B" by linarith
  from x_le half have up: "?x < of_int ((?k + 1) * M) - 1 / 2" by linarith
  then have "?x < of_int ((?k + 1) * M)" by simp
  then have fu: "\<lfloor>?x\<rfloor> < (?k + 1) * M" by (simp only: floor_less_iff)
  show "round_half_even ?x \<le> (?k + 1) * M - 1"
  proof (cases "\<lfloor>?x\<rfloor> = (?k + 1) * M - 1")
    case True
    then have "of_int \<lfloor>?x\<rfloor> = (of_int ((?k + 1) * M) :: rat) - 1" by simp
    with up have "?x - of_int \<lfloor>?x\<rfloor> < 1 / 2" by linarith
    then have "round_half_even ?x = \<lfloor>?x\<rfloor>" by (rule round_half_even_low)
    with True show ?thesis by simp
  next
    case False
    with fu have "\<lfloor>?x\<rfloor> + 1 \<le> (?k + 1) * M - 1" by simp
    with round_half_even_bounds [of ?x] show ?thesis by linarith
  qed
qed

lemma nearest_double_pos:
  assumes A: "0 < A" and B: "0 < B" and A53: "A < 2 ^ 53"
  shows "nearest_double A B =
           of_int (round_half_even (of_int A / of_int B
                      * of_int (2 ^ nat (52 - max (float_exponent A B) (- 1022)))))
             / of_int (2 ^ nat (52 - max (float_exponent A B) (- 1022)))"
proof -
  have e: "max (float_exponent A B) (- 1022) \<le> 52"
    by (rule exponent_le_52 [OF A B A53])
  show ?thesis
    using A B by (simp add: nearest_double_def Let_def ulp_form [OF e])
qed

lemma exponent_scaled_le:
  assumes A: "0 < A" and B: "0 < B" and BA: "B \<le> A"
  shows "(2::rat) powi (max (float_exponent A B) (- 1022)) * of_int B \<le> of_int A"
proof (cases "- 1022 \<le> float_exponent A B")
  case True
  then have "max (float_exponent A B) (- 1022) = float_exponent A B" by simp
  then show ?thesis using float_exponent_le [OF A B] by simp
next
  case False
  then have m: "max (float_exponent A B) (- 1022) = - 1022" by simp
  have "(2::rat) powi (- 1022) \<le> 2 powi 0"
    by (intro power_int_increasing) simp_all
  then have "(2::rat) powi (- 1022) \<le> 1" by simp
  then have "(2::rat) powi (- 1022) * of_int B \<le> 1 * of_int B"
    using B by (intro mult_right_mono) simp_all
  also have "\<dots> \<le> of_int A" using BA by simp
  finally show ?thesis unfolding m .
qed

lemma nearest_double_ge_1:
  assumes A: "0 < A" and B: "0 < B" and A53: "A < 2 ^ 53" and BA: "B \<le> A"
  shows "of_int (A div B) \<le> nearest_double A B"
    and "nearest_double A B < of_int (A div B) + 1"
proof -
  let ?e = "max (float_exponent A B) (- 1022)"
  let ?M = "2 ^ nat (52 - ?e) :: int"
  let ?r = "round_half_even (of_int A / of_int B * of_int ?M)"
  have e: "?e \<le> 52" by (rule exponent_le_52 [OF A B A53])
  have M: "0 < ?M" by simp
  have BM: "B < 2 * ?M"
    by (rule denominator_bound [OF exponent_scaled_le [OF A B BA] A53 e])
  note mb = mantissa_bounds [OF A B M BM]
  have nd: "nearest_double A B = of_int ?r / of_int ?M"
    by (rule nearest_double_pos [OF A B A53])
  have Mq: "(0::rat) < of_int ?M" by simp
  have "(of_int ((A div B) * ?M) :: rat) \<le> of_int ?r"
    using mb(1) by (simp only: of_int_le_iff)
  then have "(of_int (A div B) :: rat) * of_int ?M \<le> of_int ?r" by simp
  then have "(of_int (A div B) :: rat) \<le> of_int ?r / of_int ?M"
    using Mq by (simp only: pos_le_divide_eq)
  then show "of_int (A div B) \<le> nearest_double A B" unfolding nd .
  have "(of_int ?r :: rat) \<le> of_int ((A div B + 1) * ?M - 1)"
    using mb(2) by (simp only: of_int_le_iff)
  then have "(of_int ?r :: rat) < (of_int (A div B) + 1) * of_int ?M" by simp
  then have "(of_int ?r :: rat) / of_int ?M < of_int (A div B) + 1"
    using Mq by (simp only: pos_divide_less_eq)
  then show "nearest_double A B < of_int (A div B) + 1" unfolding nd .
qed

lemma nearest_double_lt_1:
  assumes A: "0 < A" and B: "0 < B" and A53: "A < 2 ^ 53" and AB: "A < B"
  shows "0 \<le> nearest_double A B" and "nearest_double A B \<le> 1"
proof -
  let ?e = "max (float_exponent A B) (- 1022)"
  let ?M = "2 ^ nat (52 - ?e) :: int"
  let ?x = "(of_int A :: rat) / of_int B * of_int ?M"
  let ?r = "round_half_even ?x"
  have nd: "nearest_double A B = of_int ?r / of_int ?M"
    by (rule nearest_double_pos [OF A B A53])
  have Mq: "(0::rat) < of_int ?M" by simp
  have Bq: "(0::rat) < of_int B" using B by simp
  have "(0::rat) \<le> ?x" using A B by simp
  then have "0 \<le> \<lfloor>?x\<rfloor>" by simp
  with round_half_even_bounds [of ?x] have r0: "0 \<le> ?r" by linarith
  then show "0 \<le> nearest_double A B" unfolding nd by simp
  have "(of_int A :: rat) / of_int B < 1" using AB Bq by simp
  then have "?x < 1 * of_int ?M" using Mq by (intro mult_strict_right_mono) simp_all
  then have "?x < of_int ?M" by simp
  then have "\<lfloor>?x\<rfloor> < ?M" by (simp only: floor_less_iff)
  with round_half_even_bounds [of ?x] have "?r \<le> ?M" by linarith
  then have "(of_int ?r :: rat) \<le> 1 * of_int ?M" by simp
  then have "(of_int ?r :: rat) / of_int ?M \<le> 1"
    using Mq by (simp only: pos_divide_le_eq)
  then show "nearest_double A B \<le> 1" unfolding nd .
qed

lemma nearest_double_sgn:
  "a \<noteq> 0 \<Longrightarrow> b \<noteq> 0 \<Longrightarrow>
     nearest_double a b = of_int (sgn a * sgn b) * nearest_double \<bar>a\<bar> \<bar>b\<bar>"
  by (simp add: nearest_double_def Let_def)

text \<open>
  Below \<open>2 ^ 53\<close> the float division does not raise, and cutting its result
  gives, once clamped to 1, the clamped floor of the exact quotient.
\<close>

lemma py_truediv_clamped:
  assumes b: "b \<noteq> 0" and a53: "\<bar>a\<bar> < 2 ^ 53"
  shows "\<exists>x. py_truediv a b = Inr x
           \<and> max 1 (py_int x) = max 1 \<lfloor>(of_int a :: rat) / of_int b\<rfloor>"
proof (cases "a = 0")
  case True
  then show ?thesis using b by (simp add: py_truediv_def nearest_double_def py_int_def)
next
  case False
  let ?A = "\<bar>a\<bar>" and ?B = "\<bar>b\<bar>"
  let ?R = "nearest_double ?A ?B"
  have A: "0 < ?A" and B: "0 < ?B" using False b by simp_all
  have R: "0 \<le> ?R \<and> ?R \<le> of_int (?A div ?B) + 1
            \<and> (?B \<le> ?A \<longrightarrow> of_int (?A div ?B) \<le> ?R \<and> ?R < of_int (?A div ?B) + 1)"
  proof (cases "?B \<le> ?A")
    case True
    from nearest_double_ge_1 [OF A B a53 True]
    have l: "of_int (?A div ?B) \<le> ?R" and u: "?R < of_int (?A div ?B) + 1" .
    have "0 \<le> ?A div ?B" using A B by (simp add: pos_imp_zdiv_nonneg_iff)
    then have "(0::rat) \<le> of_int (?A div ?B)" by simp
    with l u True show ?thesis by simp
  next
    case F: False
    then have AB: "?A < ?B" by simp
    from nearest_double_lt_1 [OF A B a53 AB] have "0 \<le> ?R" "?R \<le> 1" .
    moreover have "?A div ?B = 0" using AB A by (simp add: div_pos_pos_trivial)
    ultimately show ?thesis using F by simp
  qed
  have kA: "?A div ?B \<le> ?A"
    using A by (intro int_div_le_self) simp
  have "?R \<le> of_int (?A div ?B) + 1" using R by simp
  also have "\<dots> \<le> of_int ?A + 1" using kA by simp
  also have "\<dots> \<le> 2 ^ 53"
  proof -
    have "?A + 1 \<le> 2 ^ 53" using a53 by simp
    then have "(of_int (?A + 1) :: rat) \<le> of_int (2 ^ 53)" by (simp only: of_int_le_iff)
    then show ?thesis by simp
  qed
  finally have R53: "?R \<le> 2 ^ 53" .
  have nd: "nearest_double a b = of_int (sgn a * sgn b) * ?R"
    by (rule nearest_double_sgn [OF False b])
  have sg: "sgn a * sgn b = 1 \<or> sgn a * sgn b = - 1"
    using False b by (auto simp add: sgn_if)
  have R0: "0 \<le> ?R" using R by (rule conjunct1)
  have absx: "\<bar>nearest_double a b\<bar> = ?R"
  proof -
    from sg show ?thesis
    proof
      assume s: "sgn a * sgn b = 1"
      from nd [unfolded s] R0 show ?thesis by simp
    next
      assume s: "sgn a * sgn b = - 1"
      from nd [unfolded s] R0 show ?thesis by simp
    qed
  qed
  have "(2::rat) ^ 53 < 2 powi 1024" by simp
  with R53 have "?R < 2 powi 1024" by (rule le_less_trans)
  then have "\<not> (2::rat) powi 1024 \<le> \<bar>nearest_double a b\<bar>"
    unfolding absx by (simp only: not_le)
  then have ok: "py_truediv a b = Inr (nearest_double a b)"
    using b by (simp add: py_truediv_def Let_def)
  have "max 1 (py_int (nearest_double a b)) = max 1 \<lfloor>(of_int a :: rat) / of_int b\<rfloor>"
  proof (cases "sgn a * sgn b = 1")
    case True
    have x: "nearest_double a b = ?R" using nd [unfolded True] by simp
    have "(of_int a :: rat) / of_int b = of_int ?A / of_int ?B"
      using True False b by (auto simp add: sgn_if split: if_splits)
    then have fl: "\<lfloor>(of_int a :: rat) / of_int b\<rfloor> = ?A div ?B"
      by (simp only: floor_divide_of_int_eq)
    have pi: "py_int ?R = \<lfloor>?R\<rfloor>" using R by (simp add: py_int_def)
    show ?thesis
    proof (cases "?B \<le> ?A")
      case True
      with R have "of_int (?A div ?B) \<le> ?R" "?R < of_int (?A div ?B) + 1" by simp_all
      then have "\<lfloor>?R\<rfloor> = ?A div ?B" by (simp add: floor_unique)
      then show ?thesis unfolding x pi fl by simp
    next
      case F: False
      then have k0: "?A div ?B = 0" using A by (simp add: div_pos_pos_trivial)
      with R have "0 \<le> ?R" "?R \<le> 1" by simp_all
      then have "0 \<le> \<lfloor>?R\<rfloor>" "\<lfloor>?R\<rfloor> \<le> 1"
        by (simp_all add: floor_le_iff)
      then show ?thesis unfolding x pi fl k0 by simp
    qed
  next
    case F: False
    with sg have m: "sgn a * sgn b = - 1" by simp
    have x: "nearest_double a b = - ?R" using nd [unfolded m] by simp
    have "py_int (- ?R) \<le> 0"
    proof (cases "?R = 0")
      case True
      then show ?thesis by (simp add: py_int_def)
    next
      case False
      with R have "0 < ?R" by simp
      then have "py_int (- ?R) = \<lceil>- ?R\<rceil>" by (simp add: py_int_def)
      also have "\<dots> \<le> 0" using \<open>0 < ?R\<close> by (simp add: ceiling_le_zero)
      finally show ?thesis .
    qed
    moreover have "(of_int a :: rat) / of_int b < 0"
      using m False b by (auto simp add: sgn_if divide_less_0_iff split: if_splits)
    then have "\<lfloor>(of_int a :: rat) / of_int b\<rfloor> < 0" by (simp add: floor_less_zero)
    ultimately show ?thesis unfolding x by simp
  qed
  with ok show ?thesis by blast
qed

subsection \<open>The refine generator, one call of next at a time\<close>

lemma limit_reached_ITER:
  assumes "enable (rendering_limits (render_settings sr))"
      and "limit_type (rendering_limits (render_settings sr)) = ''ITER''"
  shows "limit_reached env i sr g = (used_iterations sr \<noteq> 0 \<and> used_iterations sr \<le> int i, sr)"
  using assms by (simp add: limit_reached_def Let_def)



lemma iteration_continue:
  assumes "limit_reached env i sr g = (False, sr1)"
      and "core_ok env (core_entered sr1)"
  shows "\<exists>sr' g'. render_proc_iteration env i sr g = Done False (sr', g')
           \<and> pc g' = AtYield i \<and> time_start g' = time_start g
           \<and> render_settings sr' = render_settings sr1
           \<and> used_iterations sr' = used_iterations sr1
           \<and> perf_reads sr' = perf_reads sr1 + 3
           \<and> region sr' = region sr1 \<and> resolution sr' = resolution sr1
           \<and> render_targets sr' = render_targets sr1
           \<and> render_layers sr' = render_layers sr1
           \<and> im_prepared sr' = Map.empty"
  using assms
  by (simp add: render_proc_iteration_def perf_def enter_core_def emit_def Let_def)

lemma iteration_stop:
  assumes "limit_reached env i sr g = (True, sr1)"
      and "perf_counter env (perf_reads sr1) \<noteq> time_start g"
  shows "\<exists>s. render_proc_iteration env i sr g = Raised StopIteration s"
  using assms
  by (simp add: render_proc_iteration_def render_proc_end_def perf_def Let_def)

lemma iteration_core_error:
  assumes "limit_reached env i sr g = (False, sr1)"
      and "\<not> core_ok env (core_entered sr1)"
  shows "\<exists>s. render_proc_iteration env i sr g = Raised CoreError s"
  using assms
  by (simp add: render_proc_iteration_def perf_def enter_core_def emit_def Let_def)


lemma effective_samples_frame:
  "effective_samples env sr = Done n sr1 \<Longrightarrow>
     render_settings sr1 = render_settings sr \<and> perf_reads sr1 = perf_reads sr
     \<and> core_entered sr1 = core_entered sr \<and> region sr1 = region sr
     \<and> resolution sr1 = resolution sr \<and> render_targets sr1 = render_targets sr
     \<and> render_layers sr1 = render_layers sr \<and> trace sr1 = trace sr
     \<and> is_production sr1 = is_production sr"
  by (auto simp add: effective_samples_def Let_def split: if_splits sum.splits)



lemma effective_samples_ITER:
  assumes en: "enable (rendering_limits (render_settings sr))"
      and ty: "limit_type (rendering_limits (render_settings sr)) = ''ITER''"
      and n: "n = (if is_production sr \<and> device_type (user_settings env) = ''gpu''
                   \<and> device_type_plus_cpu (user_settings env) then 100
                else if used_gpu_count (user_settings env) > samples (user_settings env)
                   \<and> is_production sr then used_gpu_count (user_settings env)
                else samples (user_settings env))"
      and n0: "n \<noteq> 0"
      and qb: "\<bar>iterations (rendering_limits (render_settings sr))
                 * samples (user_settings env)\<bar> < 2 ^ 53"
      and ub: "\<bar>samples (user_settings env)\<bar> < 2 ^ 53"
  shows "\<exists>sr1. effective_samples env sr = Done n sr1
           \<and> used_iterations sr1 =
               max 1 \<lfloor>(of_int (iterations (rendering_limits (render_settings sr))
                           * samples (user_settings env)) :: rat) / of_int n\<rfloor>"
proof -
  from py_truediv_clamped [OF n0 qb] obtain q where
    q: "py_truediv (iterations (rendering_limits (render_settings sr))
           * samples (user_settings env)) n = Inr q"
    and qc: "max 1 (py_int q) =
      max 1 \<lfloor>(of_int (iterations (rendering_limits (render_settings sr))
                  * samples (user_settings env)) :: rat) / of_int n\<rfloor>"
    by blast
  from py_truediv_clamped [OF n0 ub] obtain d where
    d: "py_truediv (samples (user_settings env)) n = Inr d"
    by blast
  have "effective_samples env sr =
          Done n (if py_int q < 1
                  then sr\<lparr>used_iterations := 1, iteration_divider := 1\<rparr>
                  else sr\<lparr>used_iterations := py_int q, iteration_divider := d\<rparr>)"
    using en ty q d unfolding n
    by (simp add: effective_samples_def Let_def)
  then show ?thesis unfolding qc [symmetric] by (cases "py_int q < 1") simp_all
qed

lemma begin_ok_aux:
  assumes es: "effective_samples env sr = Done n sr1"
      and rg: "region sr1 = None \<or> resolution sr1 \<noteq> None"
      and rt: "render_targets sr1 = Some t"
      and c1: "core_ok env (core_entered sr1)"
      and c2: "core_ok env (Suc (core_entered sr1))"
  shows "\<exists>g0 sr0. render_proc_begin env sr = Done g0 sr0
           \<and> pc g0 = NotStarted
           \<and> time_start g0 = perf_counter env (perf_reads sr1)
           \<and> render_settings sr0 = render_settings sr1
           \<and> used_iterations sr0 = used_iterations sr1
           \<and> perf_reads sr0 = perf_reads sr1 + 3
           \<and> region sr0 = region sr1 \<and> resolution sr0 = resolution sr1
           \<and> render_targets sr0 = render_targets sr1
           \<and> render_layers sr0 = render_layers sr1
           \<and> trace sr0 = trace sr1 @ [SetAASamples n, ClearRenderTargets t]"
proof (cases "region sr1")
  case None
  then show ?thesis
    using es rt c1 c2
    by (simp add: render_proc_begin_def perf_def enter_core_def emit_def Let_def)
next
  case (Some rg')
  then obtain rr where "resolution sr1 = Some rr" using rg by auto
  then show ?thesis
    using es rt c1 c2 Some
    by (simp add: render_proc_begin_def perf_def enter_core_def emit_def Let_def)
qed

lemma begin_ok:
  assumes es: "effective_samples env sr = Done n sr1"
      and rg: "region sr = None \<or> resolution sr \<noteq> None"
      and rt: "render_targets sr = Some t"
      and c1: "core_ok env (core_entered sr)"
      and c2: "core_ok env (Suc (core_entered sr))"
  shows "\<exists>g0 sr0. render_proc_begin env sr = Done g0 sr0
           \<and> pc g0 = NotStarted
           \<and> time_start g0 = perf_counter env (perf_reads sr)
           \<and> render_settings sr0 = render_settings sr
           \<and> used_iterations sr0 = used_iterations sr1
           \<and> perf_reads sr0 = perf_reads sr + 3
           \<and> region sr0 = region sr \<and> resolution sr0 = resolution sr
           \<and> render_targets sr0 = render_targets sr
           \<and> render_layers sr0 = render_layers sr
           \<and> trace sr0 = trace sr @ [SetAASamples n, ClearRenderTargets t]"
proof -
  note fr = effective_samples_frame [OF es]
  have "region sr1 = None \<or> resolution sr1 \<noteq> None" "render_targets sr1 = Some t"
    "core_ok env (core_entered sr1)" "core_ok env (Suc (core_entered sr1))"
    using rg rt c1 c2 fr by simp_all
  from begin_ok_aux [OF es this] show ?thesis
    using fr by simp
qed

subsection \<open>The refine generator, driven to its end\<close>

lemma drive_ITER_running:
  assumes "enable (rendering_limits (render_settings sr))"
      and "limit_type (rendering_limits (render_settings sr)) = ''ITER''"
      and core: "\<forall>n. core_ok env n"
      and mono: "\<forall>m n. m < n \<longrightarrow> perf_counter env m < perf_counter env n"
      and "\<exists>j < perf_reads sr. time_start g = perf_counter env j"
      and "pc g = AtYield i"
      and "used_iterations sr = int U"
      and "Suc i \<le> U"
      and "d = U - Suc i"
  shows "drive (Suc (d + k)) env sr g = replicate d (Inr False) @ [Inl StopIteration]"
  using assms
proof (induction d arbitrary: i sr g)
  case 0
  then have lr: "limit_reached env (Suc i) sr g = (True, sr)"
    by (simp add: limit_reached_ITER)
  obtain j where j: "j < perf_reads sr" "time_start g = perf_counter env j"
    using 0 by blast
  then have "perf_counter env (perf_reads sr) \<noteq> time_start g"
    using mono by (metis less_irrefl)
  from iteration_stop [OF lr this] obtain s where
    "render_proc_iteration env (Suc i) sr g = Raised StopIteration s" by blast
  then show ?case using 0 by (simp add: gen_next_def)
next
  case (Suc d)
  then have lr: "limit_reached env (Suc i) sr g = (False, sr)"
    by (simp add: limit_reached_ITER)
  have "core_ok env (core_entered sr)" using core by simp
  from iteration_continue [OF lr this] obtain sr' g' where
    st: "render_proc_iteration env (Suc i) sr g = Done False (sr', g')"
      "pc g' = AtYield (Suc i)" "time_start g' = time_start g"
      "render_settings sr' = render_settings sr" "used_iterations sr' = used_iterations sr"
      "perf_reads sr' = perf_reads sr + 3"
    by blast
  have ts: "\<exists>j<perf_reads sr'. time_start g' = perf_counter env j"
    using Suc.prems(5) st(3,6) by (metis trans_less_add1)
  have "Suc (Suc i) \<le> U" "d = U - Suc (Suc i)"
    using Suc.prems(8,9) by linarith+
  then have "drive (Suc (d + k)) env sr' g' = replicate d (Inr False) @ [Inl StopIteration]"
    using Suc.prems(1-4,7) st ts by (intro Suc.IH [of sr' g' "Suc i"]) simp_all
  moreover have "gen_next env sr g = Done False (sr', g')"
    using Suc.prems(6) st(1) by (simp add: gen_next_def)
  then have "drive (Suc (Suc d + k)) env sr g = Inr False # drive (Suc (d + k)) env sr' g'"
    by (simp del: drive.simps add: drive.simps(2) [of "Suc (d + k)"])
  ultimately show ?case by (simp only: replicate_Suc append_Cons)
qed



text \<open>The first \<open>next\<close>: set-up, then the top of the loop for iteration 0.\<close>

lemma first_next:
  assumes es: "effective_samples env sr = Done n sr1"
      and rg: "region sr = None \<or> resolution sr \<noteq> None"
      and rt: "render_targets sr = Some t"
      and core: "\<forall>n. core_ok env n"
  shows "\<exists>g0 sr0. gen_next env sr render_proc = render_proc_iteration env 0 sr0 g0
           \<and> pc g0 = NotStarted
           \<and> time_start g0 = perf_counter env (perf_reads sr)
           \<and> render_settings sr0 = render_settings sr
           \<and> used_iterations sr0 = used_iterations sr1
           \<and> perf_reads sr0 = perf_reads sr + 3
           \<and> trace sr0 = trace sr @ [SetAASamples n, ClearRenderTargets t]"
proof -
  have "core_ok env (core_entered sr)" "core_ok env (Suc (core_entered sr))"
    using core by simp_all
  from begin_ok [OF es rg rt this] obtain g0 sr0 where
    b: "render_proc_begin env sr = Done g0 sr0" "pc g0 = NotStarted"
       "time_start g0 = perf_counter env (perf_reads sr)"
       "render_settings sr0 = render_settings sr" "used_iterations sr0 = used_iterations sr1"
       "perf_reads sr0 = perf_reads sr + 3"
       "trace sr0 = trace sr @ [SetAASamples n, ClearRenderTargets t]"
    by blast
  have "gen_next env sr render_proc = render_proc_iteration env 0 sr0 g0"
    by (simp add: gen_next_def render_proc_def b(1))
  with b show ?thesis by blast
qed

lemma drive_first:
  assumes "gen_next env sr g = render_proc_iteration env 0 sr0 g0"
      and "render_proc_iteration env 0 sr0 g0 = Done False (sr', g')"
  shows "drive (Suc n) env sr g = Inr False # drive n env sr' g'"
  using assms by (simp del: drive.simps add: drive.simps(2) [of n])


lemma drive_ITER:
  assumes en: "enable (rendering_limits (render_settings sr))"
      and ty: "limit_type (rendering_limits (render_settings sr)) = ''ITER''"
      and es: "effective_samples env sr = Done n sr1"
      and U: "used_iterations sr1 = int U" "1 \<le> U"
      and rg: "region sr = None \<or> resolution sr \<noteq> None"
      and rt: "render_targets sr = Some t"
      and core: "\<forall>n. core_ok env n"
      and mono: "\<forall>m n. m < n \<longrightarrow> perf_counter env m < perf_counter env n"
  shows "drive (Suc (U + k)) env sr render_proc = replicate U (Inr False) @ [Inl StopIteration]"
proof -
  from first_next [OF es rg rt core] obtain g0 sr0 where
    f: "gen_next env sr render_proc = render_proc_iteration env 0 sr0 g0"
       "time_start g0 = perf_counter env (perf_reads sr)"
       "render_settings sr0 = render_settings sr" "used_iterations sr0 = used_iterations sr1"
       "perf_reads sr0 = perf_reads sr + 3"
    by blast
  have lr: "limit_reached env 0 sr0 g0 = (False, sr0)"
    using en ty U f by (simp add: limit_reached_ITER)
  have "core_ok env (core_entered sr0)" using core by simp
  from iteration_continue [OF lr this] obtain sr' g' where
    st: "render_proc_iteration env 0 sr0 g0 = Done False (sr', g')"
      "pc g' = AtYield 0" "time_start g' = time_start g0"
      "render_settings sr' = render_settings sr0" "used_iterations sr' = used_iterations sr0"
      "perf_reads sr' = perf_reads sr0 + 3"
    by blast
  have ts: "\<exists>j<perf_reads sr'. time_start g' = perf_counter env j"
    using st f by (intro exI [of _ "perf_reads sr"]) simp
  have "drive (Suc (U - Suc 0 + k)) env sr' g'
          = replicate (U - Suc 0) (Inr False) @ [Inl StopIteration]"
    using en ty U st f ts
    by (intro drive_ITER_running [OF _ _ core mono, of sr' g' 0 U]) simp_all
  moreover have "Suc (U - Suc 0 + k) = U + k" "Suc (U - Suc 0) = U"
    using U(2) by simp_all
  ultimately have "drive (U + k) env sr' g' = replicate (U - Suc 0) (Inr False) @ [Inl StopIteration]"
    by simp
  then have "drive (Suc (U + k)) env sr render_proc
               = Inr False # replicate (U - Suc 0) (Inr False) @ [Inl StopIteration]"
    by (simp only: drive_first [OF f(1) st(1)] append_Cons)
  then show ?thesis
    using \<open>Suc (U - Suc 0) = U\<close> by (metis append_Cons replicate_Suc)
qed



lemmas session_defs = update_render_resolution_def detach_previous_def emit_def Let_def
  SceneRenderer_init_def

text \<open>
  C4, as stated, fails: in a production render on GPU plus CPU with 2147483647 iterations
  and 2147483647 user samples, the quotient by 100 goes through a float, and
  \<^verbatim>\<open>used_iterations\<close> becomes 46116860141324208 where the floor is 46116860141324206.
\<close>

theorem used_iterations_not_floor:
  "used_iterations (state_of (effective_samples
     \<lparr>perf_counter = of_nat, core_ok = (\<lambda>i. True),
      user_settings = \<lparr>samples = 2147483647, device_type = ''gpu'', device_type_plus_cpu = True,
                       used_gpu_count = 1\<rparr>,
      tile_of = (\<lambda>rg rr. (0, 0, 0, 0)), get_frame_buffer = (\<lambda>i a. None),
      get_resolved_image = (\<lambda>i f. None), prepare_image_by_layer = (\<lambda>i a img. img)\<rparr>
     (update_render_resolution
        (SceneRenderer_init \<lparr>rendering_limits =
           \<lparr>enable = True, limit_type = ''ITER'', iterations = 2147483647, time = 0\<rparr>\<rparr> True)
        (Some (640, 480)))))
     = 46116860141324208
   \<and> max 1 \<lfloor>(of_int (2147483647 * 2147483647) :: rat) / of_int 100\<rfloor> = 46116860141324206"
proof -
  have q: "py_truediv 4611686014132420609 100 = Inr 46116860141324208"
    by code_simp
  have d: "py_truediv 2147483647 100 = Inr (720575940043735 / 33554432)"
    by code_simp
  have fl: "max 1 \<lfloor>(of_int (2147483647 * 2147483647) :: rat) / of_int 100\<rfloor>
              = 46116860141324206"
    by (simp only: floor_divide_of_int_eq)
  have "used_iterations (state_of (effective_samples
     \<lparr>perf_counter = of_nat, core_ok = (\<lambda>i. True),
      user_settings = \<lparr>samples = 2147483647, device_type = ''gpu'', device_type_plus_cpu = True,
                       used_gpu_count = 1\<rparr>,
      tile_of = (\<lambda>rg rr. (0, 0, 0, 0)), get_frame_buffer = (\<lambda>i a. None),
      get_resolved_image = (\<lambda>i f. None), prepare_image_by_layer = (\<lambda>i a img. img)\<rparr>
     (update_render_resolution
        (SceneRenderer_init \<lparr>rendering_limits =
           \<lparr>enable = True, limit_type = ''ITER'', iterations = 2147483647, time = 0\<rparr>\<rparr> True)
        (Some (640, 480)))))
     = 46116860141324208"
    by (simp add: effective_samples_def session_defs q d py_int_def)
  with fl show ?thesis by (rule conjI [rotated])
qed

text \<open>
  C4, amended. With limits enabled and of type \<^verbatim>\<open>ITER\<close>, the sample count is 100 in
  production mode on GPU plus CPU, else the GPU count when it exceeds the user's sample
  count in production mode, else the user's sample count. When that count is not zero and
  both the product of limit iterations and user samples and the user samples are below
  \<open>2 ^ 53\<close> in absolute value, \<^verbatim>\<open>used_iterations\<close> becomes the floor of that product over
  the count, and at least 1. The first \<^verbatim>\<open>next\<close> of the generator hands the count to the
  engine as \<^verbatim>\<open>aasamples\<close> and enters the loop with that \<^verbatim>\<open>used_iterations\<close>.
\<close>

theorem used_iterations_formula:
  assumes en: "enable (rendering_limits (render_settings sr))"
      and ty: "limit_type (rendering_limits (render_settings sr)) = ''ITER''"
      and n: "n = (if is_production sr \<and> device_type (user_settings env) = ''gpu''
                      \<and> device_type_plus_cpu (user_settings env) then 100
                   else if used_gpu_count (user_settings env) > samples (user_settings env)
                      \<and> is_production sr then used_gpu_count (user_settings env)
                   else samples (user_settings env))"
      and n0: "n \<noteq> 0"
      and qb: "\<bar>iterations (rendering_limits (render_settings sr))
                 * samples (user_settings env)\<bar> < 2 ^ 53"
      and ub: "\<bar>samples (user_settings env)\<bar> < 2 ^ 53"
  shows "(\<exists>sr1. effective_samples env sr = Done n sr1
            \<and> used_iterations sr1 =
                max 1 \<lfloor>(of_int (iterations (rendering_limits (render_settings sr))
                            * samples (user_settings env)) :: rat) / of_int n\<rfloor>)
         \<and> ((region sr = None \<or> resolution sr \<noteq> None) \<and> render_targets sr = Some t
              \<and> (\<forall>i. core_ok env i)
            \<longrightarrow> (\<exists>g0 sr0. gen_next env sr render_proc = render_proc_iteration env 0 sr0 g0
                   \<and> used_iterations sr0 =
                       max 1 \<lfloor>(of_int (iterations (rendering_limits (render_settings sr))
                                   * samples (user_settings env)) :: rat) / of_int n\<rfloor>
                   \<and> trace sr0 = trace sr @ [SetAASamples n, ClearRenderTargets t]))"
proof -
  from effective_samples_ITER [OF en ty n n0 qb ub] obtain sr1 where
    es: "effective_samples env sr = Done n sr1"
    and u': "used_iterations sr1 =
      max 1 \<lfloor>(of_int (iterations (rendering_limits (render_settings sr))
                  * samples (user_settings env)) :: rat) / of_int n\<rfloor>"
    by blast
  have "\<exists>g0 sr0. gen_next env sr render_proc = render_proc_iteration env 0 sr0 g0
           \<and> used_iterations sr0 =
               max 1 \<lfloor>(of_int (iterations (rendering_limits (render_settings sr))
                           * samples (user_settings env)) :: rat) / of_int n\<rfloor>
           \<and> trace sr0 = trace sr @ [SetAASamples n, ClearRenderTargets t]"
    if "region sr = None \<or> resolution sr \<noteq> None" "render_targets sr = Some t"
       "\<forall>i. core_ok env i"
    using first_next [OF es that] u' by auto
  with es u' show ?thesis by blast
qed

theorem used_iterations_formula_witness:
  "(\<exists>sr1. effective_samples
       \<lparr>perf_counter = of_nat, core_ok = (\<lambda>i. True),
      user_settings = \<lparr>samples = 50, device_type = ''gpu'', device_type_plus_cpu = True,
                       used_gpu_count = 2\<rparr>,
      tile_of = (\<lambda>rg rr. (0, 0, 0, 0)), get_frame_buffer = (\<lambda>i a. None),
      get_resolved_image = (\<lambda>i f. None), prepare_image_by_layer = (\<lambda>i a img. img)\<rparr>
       (update_render_resolution
        (SceneRenderer_init \<lparr>rendering_limits =
           \<lparr>enable = True, limit_type = ''ITER'', iterations = 500, time = 0\<rparr>\<rparr> True)
        (Some (640, 480)))
      = Done 100 sr1 \<and> used_iterations sr1 = 250)
   \<and> (\<exists>g0 sr0. gen_next
       \<lparr>perf_counter = of_nat, core_ok = (\<lambda>i. True),
      user_settings = \<lparr>samples = 50, device_type = ''gpu'', device_type_plus_cpu = True,
                       used_gpu_count = 2\<rparr>,
      tile_of = (\<lambda>rg rr. (0, 0, 0, 0)), get_frame_buffer = (\<lambda>i a. None),
      get_resolved_image = (\<lambda>i f. None), prepare_image_by_layer = (\<lambda>i a img. img)\<rparr>
       (update_render_resolution
        (SceneRenderer_init \<lparr>rendering_limits =
           \<lparr>enable = True, limit_type = ''ITER'', iterations = 500, time = 0\<rparr>\<rparr> True)
        (Some (640, 480)))
       render_proc
      = render_proc_iteration
       \<lparr>perf_counter = of_nat, core_ok = (\<lambda>i. True),
      user_settings = \<lparr>samples = 50, device_type = ''gpu'', device_type_plus_cpu = True,
                       used_gpu_count = 2\<rparr>,
      tile_of = (\<lambda>rg rr. (0, 0, 0, 0)), get_frame_buffer = (\<lambda>i a. None),
      get_resolved_image = (\<lambda>i f. None), prepare_image_by_layer = (\<lambda>i a img. img)\<rparr>
       0 sr0 g0
      \<and> used_iterations sr0 = 250
      \<and> trace sr0 = [NewRenderTargets 0 (Some (640, 480)), NewRenderLayers None 0,
                      AttachRenderTarget 0, SetAASamples 100, ClearRenderTargets 0])"
proof -
  let ?env = "\<lparr>perf_counter = of_nat, core_ok = (\<lambda>i. True),
      user_settings = \<lparr>samples = 50, device_type = ''gpu'', device_type_plus_cpu = True,
                       used_gpu_count = 2\<rparr>,
      tile_of = (\<lambda>rg rr. (0, 0, 0, 0)), get_frame_buffer = (\<lambda>i a. None),
      get_resolved_image = (\<lambda>i f. None), prepare_image_by_layer = (\<lambda>i a img. img)\<rparr>"
  let ?sr = "(update_render_resolution
        (SceneRenderer_init \<lparr>rendering_limits =
           \<lparr>enable = True, limit_type = ''ITER'', iterations = 500, time = 0\<rparr>\<rparr> True)
        (Some (640, 480)))"
  have rs: "render_settings ?sr = \<lparr>rendering_limits =
           \<lparr>enable = True, limit_type = ''ITER'', iterations = 500, time = 0\<rparr>\<rparr>"
    and pr: "is_production ?sr"
    and rg: "region ?sr = None \<or> resolution ?sr \<noteq> None"
    and rt: "render_targets ?sr = Some 0"
    and tr: "trace ?sr = [NewRenderTargets 0 (Some (640, 480)), NewRenderLayers None 0,
                          AttachRenderTarget 0]"
    by (simp_all add: session_defs)
  have en: "enable (rendering_limits (render_settings ?sr))"
    and ty: "limit_type (rendering_limits (render_settings ?sr)) = ''ITER''"
    by (simp_all add: rs)
  have n: "100 = (if is_production ?sr \<and> device_type (user_settings ?env) = ''gpu''
                      \<and> device_type_plus_cpu (user_settings ?env) then 100
                   else if used_gpu_count (user_settings ?env) > samples (user_settings ?env)
                      \<and> is_production ?sr then used_gpu_count (user_settings ?env)
                   else samples (user_settings ?env))"
    using pr by simp
  have n0: "(100::int) \<noteq> 0" by simp
  have qb: "\<bar>iterations (rendering_limits (render_settings ?sr))
                 * samples (user_settings ?env)\<bar> < 2 ^ 53"
    and ub: "\<bar>samples (user_settings ?env)\<bar> < 2 ^ 53"
    by (simp_all add: rs)
  have core: "\<forall>i. core_ok ?env i" by simp
  have fl: "max 1 \<lfloor>(of_int (iterations (rendering_limits (render_settings ?sr))
                            * samples (user_settings ?env)) :: rat) / of_int 100\<rfloor> = 250"
    by (simp add: rs)
  have hyp: "(region ?sr = None \<or> resolution ?sr \<noteq> None) \<and> render_targets ?sr = Some 0
              \<and> (\<forall>i. core_ok ?env i)"
    using rg rt core by blast
  note th = used_iterations_formula [OF en ty n n0 qb ub, of 0, unfolded fl]
  have app: "trace ?sr @ [SetAASamples 100, ClearRenderTargets 0]
      = [NewRenderTargets 0 (Some (640, 480)), NewRenderLayers None 0,
         AttachRenderTarget 0, SetAASamples 100, ClearRenderTargets 0]"
    unfolding tr by simp
  show ?thesis
    using th [THEN conjunct1] th [THEN conjunct2, THEN mp, OF hyp] unfolding app
    by (rule conjI)
qed

text \<open>
  C3, as stated, fails: a production render on two GPUs with one user sample and an
  iteration limit of 5 yields twice, then stops.
\<close>

theorem render_proc_yields_fewer_than_limit:
  "drive 6
     \<lparr>perf_counter = of_nat, core_ok = (\<lambda>i. True),
      user_settings = \<lparr>samples = 1, device_type = ''gpu'', device_type_plus_cpu = False,
                       used_gpu_count = 2\<rparr>,
      tile_of = (\<lambda>rg rr. (0, 0, 0, 0)), get_frame_buffer = (\<lambda>i a. None),
      get_resolved_image = (\<lambda>i f. None), prepare_image_by_layer = (\<lambda>i a img. img)\<rparr>
     (update_render_resolution
        (SceneRenderer_init \<lparr>rendering_limits =
           \<lparr>enable = True, limit_type = ''ITER'', iterations = 5, time = 0\<rparr>\<rparr> True)
        (Some (640, 480)))
     render_proc
   = [Inr False, Inr False, Inl StopIteration]"
proof -
  let ?env = "\<lparr>perf_counter = of_nat, core_ok = (\<lambda>i. True),
      user_settings = \<lparr>samples = 1, device_type = ''gpu'', device_type_plus_cpu = False,
                       used_gpu_count = 2\<rparr>,
      tile_of = (\<lambda>rg rr. (0, 0, 0, 0)), get_frame_buffer = (\<lambda>i a. None),
      get_resolved_image = (\<lambda>i f. None), prepare_image_by_layer = (\<lambda>i a img. img)\<rparr>"
  let ?sr = "(update_render_resolution
        (SceneRenderer_init \<lparr>rendering_limits =
           \<lparr>enable = True, limit_type = ''ITER'', iterations = 5, time = 0\<rparr>\<rparr> True)
        (Some (640, 480)))"
  have rs: "render_settings ?sr = \<lparr>rendering_limits =
           \<lparr>enable = True, limit_type = ''ITER'', iterations = 5, time = 0\<rparr>\<rparr>"
    and pr: "is_production ?sr"
    and rg: "region ?sr = None \<or> resolution ?sr \<noteq> None"
    and rt: "render_targets ?sr = Some 0"
    by (simp_all add: session_defs)
  have en: "enable (rendering_limits (render_settings ?sr))"
    and ty: "limit_type (rendering_limits (render_settings ?sr)) = ''ITER''"
    by (simp_all add: rs)
  have n: "2 = (if is_production ?sr \<and> device_type (user_settings ?env) = ''gpu''
                      \<and> device_type_plus_cpu (user_settings ?env) then 100
                   else if used_gpu_count (user_settings ?env) > samples (user_settings ?env)
                      \<and> is_production ?sr then used_gpu_count (user_settings ?env)
                   else samples (user_settings ?env))"
    using pr by simp
  have n0: "(2::int) \<noteq> 0" by simp
  have qb: "\<bar>iterations (rendering_limits (render_settings ?sr))
                 * samples (user_settings ?env)\<bar> < 2 ^ 53"
    and ub: "\<bar>samples (user_settings ?env)\<bar> < 2 ^ 53"
    by (simp_all add: rs)
  from effective_samples_ITER [OF en ty n n0 qb ub] obtain sr1 where
    es: "effective_samples ?env ?sr = Done 2 sr1"
    and u: "used_iterations sr1 =
      max 1 \<lfloor>(of_int (iterations (rendering_limits (render_settings ?sr))
                  * samples (user_settings ?env)) :: rat) / of_int 2\<rfloor>"
    by blast
  have u2: "used_iterations sr1 = int 2"
    unfolding u floor_divide_of_int_eq by (simp add: rs)
  have core: "\<forall>i. core_ok ?env i" by simp
  have mono: "\<forall>i j. i < j \<longrightarrow> perf_counter ?env i < perf_counter ?env j" by simp
  have "drive (Suc (2 + 3)) ?env ?sr render_proc
          = replicate 2 (Inr False) @ [Inl StopIteration]"
    by (rule drive_ITER [OF en ty es u2 _ rg rt core mono]) simp
  moreover have "Suc (2 + 3) = 6" by simp
  moreover have "replicate 2 (Inr False) @ [Inl StopIteration]
             = [Inr False, Inr False, Inl StopIteration :: py_error + bool]"
    by (simp add: numeral_2_eq_2)
  ultimately show ?thesis by (simp only:)
qed

text \<open>
  C3, amended. With limits enabled and of type \<^verbatim>\<open>ITER\<close>, a sample count that is not
  zero, the product of limit and user samples and the user samples below \<open>2 ^ 53\<close> in
  absolute value, no region or a resolution, render targets in place, no failing engine
  call and a strictly advancing clock, the generator yields exactly \<^verbatim>\<open>used_iterations\<close>
  times and then stops, where \<^verbatim>\<open>used_iterations\<close> is the floor of the limit times the
  user samples over the sample count, and at least 1; it is the configured limit \<open>N\<close> when
  \<open>N \<ge> 1\<close> and the sample count is the user's.
\<close>

theorem render_proc_iteration_limit:
  assumes en: "enable (rendering_limits (render_settings sr))"
      and ty: "limit_type (rendering_limits (render_settings sr)) = ''ITER''"
      and n: "n = (if is_production sr \<and> device_type (user_settings env) = ''gpu''
                      \<and> device_type_plus_cpu (user_settings env) then 100
                   else if used_gpu_count (user_settings env) > samples (user_settings env)
                      \<and> is_production sr then used_gpu_count (user_settings env)
                   else samples (user_settings env))"
      and n0: "n \<noteq> 0"
      and qb: "\<bar>iterations (rendering_limits (render_settings sr))
                 * samples (user_settings env)\<bar> < 2 ^ 53"
      and ub: "\<bar>samples (user_settings env)\<bar> < 2 ^ 53"
      and U: "U = nat (max 1 \<lfloor>(of_int (iterations (rendering_limits (render_settings sr))
                                    * samples (user_settings env)) :: rat) / of_int n\<rfloor>)"
      and rg: "region sr = None \<or> resolution sr \<noteq> None"
      and rt: "render_targets sr = Some t"
      and core: "\<forall>i. core_ok env i"
      and mono: "\<forall>i j. i < j \<longrightarrow> perf_counter env i < perf_counter env j"
  shows "drive (Suc (U + k)) env sr render_proc = replicate U (Inr False) @ [Inl StopIteration]
         \<and> (n = samples (user_settings env)
              \<and> 1 \<le> iterations (rendering_limits (render_settings sr))
            \<longrightarrow> U = nat (iterations (rendering_limits (render_settings sr))))"
proof -
  from effective_samples_ITER [OF en ty n n0 qb ub] obtain sr1 where
    es: "effective_samples env sr = Done n sr1"
    and u: "used_iterations sr1 =
      max 1 \<lfloor>(of_int (iterations (rendering_limits (render_settings sr))
                  * samples (user_settings env)) :: rat) / of_int n\<rfloor>"
    by blast
  have "used_iterations sr1 = int U" "1 \<le> U"
    unfolding u U by simp_all
  from drive_ITER [OF en ty es this rg rt core mono]
  have d: "drive (Suc (U + k)) env sr render_proc
             = replicate U (Inr False) @ [Inl StopIteration]" .
  have "U = nat (iterations (rendering_limits (render_settings sr)))"
    if "n = samples (user_settings env)" "1 \<le> iterations (rendering_limits (render_settings sr))"
  proof -
    have "\<lfloor>(of_int (iterations (rendering_limits (render_settings sr))
                 * samples (user_settings env)) :: rat) / of_int n\<rfloor>
            = iterations (rendering_limits (render_settings sr)) * n div n"
      unfolding that(1) by (rule floor_divide_of_int_eq)
    also have "\<dots> = iterations (rendering_limits (render_settings sr))"
      using n0 by simp
    finally show ?thesis using that(2) unfolding U by simp
  qed
  with d show ?thesis by blast
qed

theorem render_proc_iteration_limit_witness:
  "drive 4
     \<lparr>perf_counter = of_nat, core_ok = (\<lambda>i. True),
      user_settings = \<lparr>samples = 1, device_type = ''gpu'', device_type_plus_cpu = False,
                       used_gpu_count = 2\<rparr>,
      tile_of = (\<lambda>rg rr. (0, 0, 0, 0)), get_frame_buffer = (\<lambda>i a. None),
      get_resolved_image = (\<lambda>i f. None), prepare_image_by_layer = (\<lambda>i a img. img)\<rparr>
     (update_render_resolution
        (SceneRenderer_init \<lparr>rendering_limits =
           \<lparr>enable = True, limit_type = ''ITER'', iterations = 3, time = 0\<rparr>\<rparr> False)
        (Some (640, 480)))
     render_proc
   = [Inr False, Inr False, Inr False, Inl StopIteration]"
proof -
  let ?env = "\<lparr>perf_counter = of_nat, core_ok = (\<lambda>i. True),
      user_settings = \<lparr>samples = 1, device_type = ''gpu'', device_type_plus_cpu = False,
                       used_gpu_count = 2\<rparr>,
      tile_of = (\<lambda>rg rr. (0, 0, 0, 0)), get_frame_buffer = (\<lambda>i a. None),
      get_resolved_image = (\<lambda>i f. None), prepare_image_by_layer = (\<lambda>i a img. img)\<rparr>"
  let ?sr = "(update_render_resolution
        (SceneRenderer_init \<lparr>rendering_limits =
           \<lparr>enable = True, limit_type = ''ITER'', iterations = 3, time = 0\<rparr>\<rparr> False)
        (Some (640, 480)))"
  have rs: "render_settings ?sr = \<lparr>rendering_limits =
           \<lparr>enable = True, limit_type = ''ITER'', iterations = 3, time = 0\<rparr>\<rparr>"
    and pr: "\<not> is_production ?sr"
    and rg: "region ?sr = None \<or> resolution ?sr \<noteq> None"
    and rt: "render_targets ?sr = Some 0"
    by (simp_all add: session_defs)
  have en: "enable (rendering_limits (render_settings ?sr))"
    and ty: "limit_type (rendering_limits (render_settings ?sr)) = ''ITER''"
    by (simp_all add: rs)
  have n: "1 = (if is_production ?sr \<and> device_type (user_settings ?env) = ''gpu''
                      \<and> device_type_plus_cpu (user_settings ?env) then 100
                   else if used_gpu_count (user_settings ?env) > samples (user_settings ?env)
                      \<and> is_production ?sr then used_gpu_count (user_settings ?env)
                   else samples (user_settings ?env))"
    using pr by simp
  have n0: "(1::int) \<noteq> 0" by simp
  have qb: "\<bar>iterations (rendering_limits (render_settings ?sr))
                 * samples (user_settings ?env)\<bar> < 2 ^ 53"
    and ub: "\<bar>samples (user_settings ?env)\<bar> < 2 ^ 53"
    by (simp_all add: rs)
  have U: "3 = nat (max 1 \<lfloor>(of_int (iterations (rendering_limits (render_settings ?sr))
                                    * samples (user_settings ?env)) :: rat) / of_int 1\<rfloor>)"
    by (simp add: rs)
  have core: "\<forall>i. core_ok ?env i" by simp
  have mono: "\<forall>i j. i < j \<longrightarrow> perf_counter ?env i < perf_counter ?env j" by simp
  from render_proc_iteration_limit [OF en ty n n0 qb ub U rg rt core mono, of 0]
  have d: "drive (Suc (3 + 0)) ?env ?sr render_proc
             = replicate 3 (Inr False) @ [Inl StopIteration]"
    by (rule conjunct1)
  have a: "Suc (3 + 0) = 4" by simp
  have b: "replicate 3 (Inr False) @ [Inl StopIteration]
             = [Inr False, Inr False, Inr False, Inl StopIteration :: py_error + bool]"
    by (simp add: numeral_3_eq_3)
  show ?thesis using d unfolding a b .
qed




subsection \<open>The image cache\<close>

lemma get_image_hit:
  "im_prepared sr a = Some img \<Longrightarrow> get_image env sr a = Done (Some img) sr"
  by (simp add: get_image_def)

lemma get_image_stores:
  "get_image env sr a = Done (Some img) sr1 \<Longrightarrow> im_prepared sr1 a = Some img"
  by (auto simp add: get_image_def enter_core_def emit_def Let_def
        split: option.splits if_splits)

lemma get_image_resolves:
  assumes "im_prepared sr a = None" "render_targets sr = Some t" "render_layers sr = Some l"
      and "core_ok env (core_entered sr)"
      and "get_frame_buffer env (core_entered sr) a = Some fb"
      and "get_resolved_image env (core_entered sr) fb = Some resolved"
  shows "\<exists>sr1. get_image env sr a
                 = Done (Some (prepare_image_by_layer env (core_entered sr) a resolved)) sr1
           \<and> trace sr1 = trace sr @ [GetFrameBuffer a, GetResolvedImage fb,
                                       PrepareImageByLayer a resolved]
           \<and> im_prepared sr1 = (im_prepared sr)
                (a \<mapsto> prepare_image_by_layer env (core_entered sr) a resolved)"
  using assms by (simp add: get_image_def enter_core_def emit_def Let_def)

lemma get_image_no_frame_buffer:
  assumes "im_prepared sr a = None" "render_targets sr = Some t"
      and "core_ok env (core_entered sr)"
      and "get_frame_buffer env (core_entered sr) a = None"
  shows "\<exists>sr1. get_image env sr a = Done None sr1
           \<and> im_prepared sr1 = im_prepared sr
           \<and> trace sr1 = trace sr @ [GetFrameBuffer a]"
  using assms by (simp add: get_image_def enter_core_def emit_def Let_def)

lemma iteration_clears_cache:
  "render_proc_iteration env i sr g = Done b (sr1, g1) \<Longrightarrow> im_prepared sr1 = Map.empty"
  by (auto simp add: render_proc_iteration_def render_proc_end_def perf_def enter_core_def
        emit_def Let_def split: prod.splits if_splits)

lemma gen_next_clears_cache:
  "gen_next env sr g = Done b (sr1, g1) \<Longrightarrow> im_prepared sr1 = Map.empty"
  by (auto simp add: gen_next_def split: gen_pc.splits outcome.splits
        dest: iteration_clears_cache)

text \<open>
  C8. A call of \<^verbatim>\<open>get_image\<close> that returned an image is followed, as long as the
  generator does not advance, by calls that return the same image and touch nothing (it is
  the entry of \<^verbatim>\<open>im_prepared\<close>). A \<^verbatim>\<open>next\<close> of the generator that yields leaves the
  cache empty, so the following \<^verbatim>\<open>get_image\<close> asks the render targets for the frame
  buffer, resolves it, and returns what the render layers prepare from it. With nothing
  cached and no frame buffer for the channel, \<^verbatim>\<open>get_image\<close> returns \<^verbatim>\<open>None\<close>.
\<close>

theorem get_image_cache:
  "(get_image env sr a = Done (Some img) sr1
      \<longrightarrow> get_image env sr1 a = Done (Some img) sr1)
   \<and> (gen_next env sr g = Done b (sr2, g2)
      \<longrightarrow> im_prepared sr2 = Map.empty
          \<and> (render_targets sr2 = Some t \<and> render_layers sr2 = Some l
               \<and> core_ok env (core_entered sr2)
               \<and> get_frame_buffer env (core_entered sr2) a = Some fb
               \<and> get_resolved_image env (core_entered sr2) fb = Some resolved
             \<longrightarrow> (\<exists>sr3. get_image env sr2 a
                          = Done (Some (prepare_image_by_layer env (core_entered sr2) a resolved)) sr3
                    \<and> trace sr3 = trace sr2 @ [GetFrameBuffer a, GetResolvedImage fb,
                                                  PrepareImageByLayer a resolved])))
   \<and> (im_prepared sr a = None \<and> render_targets sr = Some t
        \<and> core_ok env (core_entered sr)
        \<and> get_frame_buffer env (core_entered sr) a = None
      \<longrightarrow> (\<exists>sr4. get_image env sr a = Done None sr4 \<and> im_prepared sr4 = im_prepared sr))"
proof (intro conjI impI)
  assume "get_image env sr a = Done (Some img) sr1"
  then have "im_prepared sr1 a = Some img" by (rule get_image_stores)
  then show "get_image env sr1 a = Done (Some img) sr1" by (rule get_image_hit)
next
  assume "gen_next env sr g = Done b (sr2, g2)"
  then show "im_prepared sr2 = Map.empty" by (rule gen_next_clears_cache)
next
  assume n: "gen_next env sr g = Done b (sr2, g2)"
    and h: "render_targets sr2 = Some t \<and> render_layers sr2 = Some l
               \<and> core_ok env (core_entered sr2)
               \<and> get_frame_buffer env (core_entered sr2) a = Some fb
               \<and> get_resolved_image env (core_entered sr2) fb = Some resolved"
  have "im_prepared sr2 a = None" using gen_next_clears_cache [OF n] by simp
  with h get_image_resolves [of sr2 a t l env fb resolved]
  show "\<exists>sr3. get_image env sr2 a
                = Done (Some (prepare_image_by_layer env (core_entered sr2) a resolved)) sr3
          \<and> trace sr3 = trace sr2 @ [GetFrameBuffer a, GetResolvedImage fb,
                                        PrepareImageByLayer a resolved]"
    by blast
next
  assume "im_prepared sr a = None \<and> render_targets sr = Some t
        \<and> core_ok env (core_entered sr)
        \<and> get_frame_buffer env (core_entered sr) a = None"
  then have "\<exists>sr4. get_image env sr a = Done None sr4
           \<and> im_prepared sr4 = im_prepared sr
           \<and> trace sr4 = trace sr @ [GetFrameBuffer a]"
    by (intro get_image_no_frame_buffer [of sr a t env]) simp_all
  then show "\<exists>sr4. get_image env sr a = Done None sr4 \<and> im_prepared sr4 = im_prepared sr"
    by auto
qed

lemmas eval_defs = get_image_def gen_next_def render_proc_def render_proc_begin_def
  effective_samples_def render_proc_iteration_def limit_reached_def perf_def enter_core_def
  session_defs

theorem get_image_cache_witness:
  "\<exists>s1 s2 g2 s3 s4.
     get_image
       \<lparr>perf_counter = of_nat, core_ok = (\<lambda>i. True),
        user_settings = \<lparr>samples = 1, device_type = ''gpu'', device_type_plus_cpu = False,
                         used_gpu_count = 1\<rparr>,
        tile_of = (\<lambda>rg rr. (0, 0, 0, 0)),
        get_frame_buffer = (\<lambda>i a. if a = ''default'' then Some 7 else None),
        get_resolved_image = (\<lambda>i f. Some (10 + i)),
        prepare_image_by_layer = (\<lambda>i a img. 100 + img)\<rparr>
       (update_render_resolution
         (SceneRenderer_init \<lparr>rendering_limits =
            \<lparr>enable = False, limit_type = ''ITER'', iterations = 3, time = 0\<rparr>\<rparr> False)
         (Some (640, 480))) ''default'' = Done (Some 110) s1
   \<and> get_image
       \<lparr>perf_counter = of_nat, core_ok = (\<lambda>i. True),
        user_settings = \<lparr>samples = 1, device_type = ''gpu'', device_type_plus_cpu = False,
                         used_gpu_count = 1\<rparr>,
        tile_of = (\<lambda>rg rr. (0, 0, 0, 0)),
        get_frame_buffer = (\<lambda>i a. if a = ''default'' then Some 7 else None),
        get_resolved_image = (\<lambda>i f. Some (10 + i)),
        prepare_image_by_layer = (\<lambda>i a img. 100 + img)\<rparr>
       s1 ''default'' = Done (Some 110) s1
   \<and> gen_next
       \<lparr>perf_counter = of_nat, core_ok = (\<lambda>i. True),
        user_settings = \<lparr>samples = 1, device_type = ''gpu'', device_type_plus_cpu = False,
                         used_gpu_count = 1\<rparr>,
        tile_of = (\<lambda>rg rr. (0, 0, 0, 0)),
        get_frame_buffer = (\<lambda>i a. if a = ''default'' then Some 7 else None),
        get_resolved_image = (\<lambda>i f. Some (10 + i)),
        prepare_image_by_layer = (\<lambda>i a img. 100 + img)\<rparr>
       s1 render_proc = Done False (s2, g2)
   \<and> im_prepared s2 = Map.empty
   \<and> get_image
       \<lparr>perf_counter = of_nat, core_ok = (\<lambda>i. True),
        user_settings = \<lparr>samples = 1, device_type = ''gpu'', device_type_plus_cpu = False,
                         used_gpu_count = 1\<rparr>,
        tile_of = (\<lambda>rg rr. (0, 0, 0, 0)),
        get_frame_buffer = (\<lambda>i a. if a = ''default'' then Some 7 else None),
        get_resolved_image = (\<lambda>i f. Some (10 + i)),
        prepare_image_by_layer = (\<lambda>i a img. 100 + img)\<rparr>
       s2 ''default'' = Done (Some 114) s3
   \<and> get_image
       \<lparr>perf_counter = of_nat, core_ok = (\<lambda>i. True),
        user_settings = \<lparr>samples = 1, device_type = ''gpu'', device_type_plus_cpu = False,
                         used_gpu_count = 1\<rparr>,
        tile_of = (\<lambda>rg rr. (0, 0, 0, 0)),
        get_frame_buffer = (\<lambda>i a. if a = ''default'' then Some 7 else None),
        get_resolved_image = (\<lambda>i f. Some (10 + i)),
        prepare_image_by_layer = (\<lambda>i a img. 100 + img)\<rparr>
       s2 ''depth'' = Done None s4"
proof -
  let ?E = "\<lparr>perf_counter = of_nat, core_ok = (\<lambda>i. True),
        user_settings = \<lparr>samples = 1, device_type = ''gpu'', device_type_plus_cpu = False,
                         used_gpu_count = 1\<rparr>,
        tile_of = (\<lambda>rg rr. (0, 0, 0, 0)),
        get_frame_buffer = (\<lambda>i a. if a = ''default'' then Some 7 else None),
        get_resolved_image = (\<lambda>i f. Some (10 + i)),
        prepare_image_by_layer = (\<lambda>i a img. 100 + img)\<rparr>"
  let ?S = "update_render_resolution
         (SceneRenderer_init \<lparr>rendering_limits =
            \<lparr>enable = False, limit_type = ''ITER'', iterations = 3, time = 0\<rparr>\<rparr> False)
         (Some (640, 480))"
  have "\<exists>s1 s2 g2. get_image ?E ?S ''default'' = Done (Some 110) s1
          \<and> gen_next ?E s1 render_proc = Done False (s2, g2)
          \<and> render_targets s2 = Some 0 \<and> render_layers s2 = Some (None, 0)
          \<and> core_entered s2 = 4"
    by (simp add: eval_defs)
  then obtain s1 s2 g2 where
    e1: "get_image ?E ?S ''default'' = Done (Some 110) s1"
    and e2: "gen_next ?E s1 render_proc = Done False (s2, g2)"
    and e3: "render_targets s2 = Some 0" "render_layers s2 = Some (None, 0)"
            "core_entered s2 = 4"
    by blast
  note th1 = get_image_cache [where env = ?E and sr = ?S and a = "''default''" and ?sr1.0 = s1
      and img = 110, THEN conjunct1, THEN mp, OF e1]
  note th2 = get_image_cache [where env = ?E and sr = s1 and g = render_proc and b = False
      and ?sr2.0 = s2 and ?g2.0 = g2 and a = "''default''" and t = 0 and l = "(None, 0)"
      and fb = 7 and resolved = 14, THEN conjunct2, THEN conjunct1, THEN mp, OF e2]
  have h2: "render_targets s2 = Some 0 \<and> render_layers s2 = Some (None, 0)
               \<and> core_ok ?E (core_entered s2)
               \<and> get_frame_buffer ?E (core_entered s2) ''default'' = Some 7
               \<and> get_resolved_image ?E (core_entered s2) 7 = Some 14"
    using e3 by simp
  from th2 [THEN conjunct2, THEN mp, OF h2] obtain s3 where
    e4: "get_image ?E s2 ''default''
           = Done (Some (prepare_image_by_layer ?E (core_entered s2) ''default'' 14)) s3"
    by blast
  have e4': "get_image ?E s2 ''default'' = Done (Some 114) s3"
    using e4 by simp
  have h3: "im_prepared s2 ''depth'' = None \<and> render_targets s2 = Some 0
        \<and> core_ok ?E (core_entered s2)
        \<and> get_frame_buffer ?E (core_entered s2) ''depth'' = None"
    using e3 th2 [THEN conjunct1] by simp
  from get_image_cache [where env = ?E and sr = s2 and a = "''depth''" and t = 0,
      THEN conjunct2, THEN conjunct2, THEN mp, OF h3]
  obtain s4 where e5: "get_image ?E s2 ''depth'' = Done None s4" by blast
  from e1 th1 e2 th2 [THEN conjunct1] e4' e5 show ?thesis by blast
qed

subsection \<open>Completion after a crash\<close>

text \<open>
  C6. When the worker thread has ended, \<^verbatim>\<open>is_render_completed\<close> returns
  \<^verbatim>\<open>True\<close> and \<^verbatim>\<open>stop\<close> returns without waiting. But \<^verbatim>\<open>stop\<close> sets
  \<^verbatim>\<open>self.thread\<close> to \<^verbatim>\<open>None\<close>, and \<^verbatim>\<open>is_alive\<close> calls a method on it: after
  \<^verbatim>\<open>stop\<close>, \<^verbatim>\<open>is_render_completed\<close> raises \<^verbatim>\<open>AttributeError\<close> instead of
  returning \<^verbatim>\<open>True\<close>. The second theorem reaches such a coordinator: the engine
  refuses the settings in the first tick, the exception ends the thread.
\<close>

theorem is_render_completed_after_stop:
  assumes "thread c = Some t" and "\<not> alive t"
  shows "is_render_completed c = Done True c
         \<and> stop c = Some (c\<lparr>stop_requested := True, thread := None\<rparr>)
         \<and> is_render_completed (c\<lparr>stop_requested := True, thread := None\<rparr>)
             = Raised AttributeError (c\<lparr>stop_requested := True, thread := None\<rparr>)"
  using assms
  by (simp add: is_render_completed_def is_alive_def stop_def join_def terminate_def Let_def)

theorem is_render_completed_after_stop_witness:
  "\<exists>c t. run_pass
       \<lparr>perf_counter = of_nat, core_ok = (\<lambda>i. False),
        user_settings = \<lparr>samples = 1, device_type = ''gpu'', device_type_plus_cpu = False,
                         used_gpu_count = 1\<rparr>,
        tile_of = (\<lambda>rg rr. (0, 0, 0, 0)), get_frame_buffer = (\<lambda>i a. None),
        get_resolved_image = (\<lambda>i f. None), prepare_image_by_layer = (\<lambda>i a img. img)\<rparr>
       (start (SceneRendererThreaded_init (\<lambda>a b. False)
         (update_render_resolution
           (SceneRenderer_init \<lparr>rendering_limits =
              \<lparr>enable = False, limit_type = ''ITER'', iterations = 3, time = 0\<rparr>\<rparr> False)
           (Some (640, 480))))) = Some c
     \<and> thread c = Some t \<and> \<not> alive t
     \<and> is_render_completed c = Done True c
     \<and> (\<exists>c'. stop c = Some c' \<and> thread c' = None
            \<and> is_render_completed c' = Raised AttributeError c')"
proof -
  have "\<exists>c. run_pass
       \<lparr>perf_counter = of_nat, core_ok = (\<lambda>i. False),
        user_settings = \<lparr>samples = 1, device_type = ''gpu'', device_type_plus_cpu = False,
                         used_gpu_count = 1\<rparr>,
        tile_of = (\<lambda>rg rr. (0, 0, 0, 0)), get_frame_buffer = (\<lambda>i a. None),
        get_resolved_image = (\<lambda>i f. None), prepare_image_by_layer = (\<lambda>i a img. img)\<rparr>
       (start (SceneRendererThreaded_init (\<lambda>a b. False)
         (update_render_resolution
           (SceneRenderer_init \<lparr>rendering_limits =
              \<lparr>enable = False, limit_type = ''ITER'', iterations = 3, time = 0\<rparr>\<rparr> False)
           (Some (640, 480))))) = Some c
     \<and> thread c = Some \<lparr>terminate_event = False, alive = False\<rparr>"
    apply (simp add: run_pass_def start_def start_thread_def threaded_render_proc_def
      SceneRendererThreaded_init_def UpdateData_init_def UpdateBlock_init_def
      default_value_def default_has_value_def
      check_updates_def check_resolution_aov_def check_region_def check_camera_def
      log_debug_def pop_value_def set_need_scene_redraw_def update_render_region_def
      session_defs)
    apply (subst render_loop.simps)
    apply (simp add: check_updates_def check_resolution_aov_def check_region_def check_camera_def
      gen_next_def render_proc_def render_proc_begin_def effective_samples_def perf_def
      enter_core_def emit_def)
    done
  then obtain c where c: "run_pass
       \<lparr>perf_counter = of_nat, core_ok = (\<lambda>i. False),
        user_settings = \<lparr>samples = 1, device_type = ''gpu'', device_type_plus_cpu = False,
                         used_gpu_count = 1\<rparr>,
        tile_of = (\<lambda>rg rr. (0, 0, 0, 0)), get_frame_buffer = (\<lambda>i a. None),
        get_resolved_image = (\<lambda>i f. None), prepare_image_by_layer = (\<lambda>i a img. img)\<rparr>
       (start (SceneRendererThreaded_init (\<lambda>a b. False)
         (update_render_resolution
           (SceneRenderer_init \<lparr>rendering_limits =
              \<lparr>enable = False, limit_type = ''ITER'', iterations = 3, time = 0\<rparr>\<rparr> False)
           (Some (640, 480))))) = Some c"
     and t: "thread c = Some \<lparr>terminate_event = False, alive = False\<rparr>"
    by blast
  have d: "\<not> alive \<lparr>terminate_event = False, alive = False\<rparr>" by simp
  from is_render_completed_after_stop [OF t d] c t d
  show ?thesis
    by (intro exI [of _ c] exI [of _ "\<lparr>terminate_event = False, alive = False\<rparr>"]) simp
qed

end
